theory Spec2Isabelle
  imports Main
begin

section \<open>JavaScript values used by the authentication pages\<close>

text \<open>
  A JavaScript string is a sequence of UTF-16 code units; a code unit is modelled as a
  natural number (below 65536 in every string the browser produces). \<open>js\<close> turns an
  ASCII literal into such a string.
\<close>

type_synonym jsstring = "nat list"

definition js :: "string \<Rightarrow> jsstring" where
  "js s = map of_char s"

text \<open>
  \<open>URLSearchParams.get\<close>, \<open>sessionStorage.getItem\<close> and optional fields yield a
  string or \<open>null\<close>/\<open>undefined\<close>. The source tests such values for truthiness
  (\<open>if (state)\<close>, \<open>a || b\<close>): \<open>null\<close> and the empty string are falsy.
  \<open>truthy_value\<close> keeps a truthy value and maps a falsy one to \<open>None\<close>.
\<close>

definition truthy_value :: "jsstring option \<Rightarrow> jsstring option" where
  "truthy_value v = (case v of None \<Rightarrow> None | Some s \<Rightarrow> (if s = [] then None else Some s))"

text \<open>\<open>a || b\<close> on such values.\<close>

definition or_else :: "jsstring option \<Rightarrow> jsstring option \<Rightarrow> jsstring option" where
  "or_else a b = (case truthy_value a of Some s \<Rightarrow> Some s | None \<Rightarrow> b)"

text \<open>
  A thrown value: an \<open>Error\<close> instance with its message, or some other value.
  \<open>URIError\<close> is the error \<open>decodeURIComponent\<close> throws.
\<close>

datatype js_exn = JsError jsstring | Thrown_other

definition URIError :: js_exn where
  "URIError = JsError (js ''URI malformed'')"

text \<open>\<open>String.prototype.includes\<close>: the pattern occurs somewhere in the string.\<close>

fun includes_str :: "jsstring \<Rightarrow> jsstring \<Rightarrow> bool" where
  "includes_str [] pat = (pat = [])"
| "includes_str (c # s) pat = (take (length pat) (c # s) = pat \<or> includes_str s pat)"

subsection \<open>decodeURIComponent\<close>

text \<open>
  The Decode operation of ECMA-262 with an empty set of preserved escapes. Every
  \<open>%\<close> (code unit 37) must be followed by two hexadecimal digits; an escaped octet with
  a leading 1 bit starts a UTF-8 sequence whose continuation octets must be escapes too
  and which must be well-formed UTF-8. Any violation throws \<open>URIError\<close>: the result
  is \<open>None\<close>.
\<close>

definition hex_digit :: "nat \<Rightarrow> nat option" where
  "hex_digit c =
     (if 48 \<le> c \<and> c \<le> 57 then Some (c - 48)
      else if 65 \<le> c \<and> c \<le> 70 then Some (c - 55)
      else if 97 \<le> c \<and> c \<le> 102 then Some (c - 87)
      else None)"

definition ParseHexOctet :: "nat \<Rightarrow> nat \<Rightarrow> nat option" where
  "ParseHexOctet a b =
     (case hex_digit a of None \<Rightarrow> None
      | Some h \<Rightarrow> (case hex_digit b of None \<Rightarrow> None | Some l \<Rightarrow> Some (16 * h + l)))"

text \<open>
  First pass: split the string into plain code units (\<open>Inl\<close>) and escaped octets
  (\<open>Inr\<close>); \<open>None\<close> when a \<open>%\<close> is not followed by two hexadecimal digits.
\<close>

fun unescape :: "jsstring \<Rightarrow> (nat + nat) list option" where
  "unescape [] = Some []"
| "unescape (c # s) =
     (if c \<noteq> 37 then map_option ((#) (Inl c)) (unescape s)
      else (case s of
              a # b # r \<Rightarrow>
                (case ParseHexOctet a b of
                   None \<Rightarrow> None
                 | Some octet \<Rightarrow> map_option ((#) (Inr octet)) (unescape r))
            | _ \<Rightarrow> None))"

text \<open>The number of leading 1 bits of an octet (5 stands for "more than 4").\<close>

definition leading_ones :: "nat \<Rightarrow> nat" where
  "leading_ones b =
     (if b < 128 then 0 else if b < 192 then 1 else if b < 224 then 2
      else if b < 240 then 3 else if b < 248 then 4 else 5)"

text \<open>The octets that directly follow as escapes, when there are at least \<open>n\<close>.\<close>

fun continuation_octets :: "nat \<Rightarrow> (nat + nat) list \<Rightarrow> nat list option" where
  "continuation_octets 0 xs = Some []"
| "continuation_octets (Suc n) (Inr b # xs) = map_option ((#) b) (continuation_octets n xs)"
| "continuation_octets (Suc n) _ = None"

text \<open>
  The code point of a UTF-8 sequence with lead octet \<open>b\<close> and continuation octets
  \<open>cs\<close>, when the sequence is well formed: continuation octets in 0x80..0xBF, no
  overlong form, no surrogate, at most 0x10FFFF.
\<close>

definition utf8_code_point :: "nat \<Rightarrow> nat list \<Rightarrow> nat option" where
  "utf8_code_point b cs =
     (let n = length cs;
          v = fold (\<lambda>c acc. acc * 64 + (c - 128)) cs (b mod 2 ^ (6 - n))
      in if list_all (\<lambda>c. 128 \<le> c \<and> c < 192) cs \<and>
            ((n = 1 \<and> 128 \<le> v) \<or>
             (n = 2 \<and> 2048 \<le> v \<and> \<not> (55296 \<le> v \<and> v < 57344)) \<or>
             (n = 3 \<and> 65536 \<le> v \<and> v \<le> 1114111))
         then Some v else None)"

definition UTF16EncodeCodePoint :: "nat \<Rightarrow> jsstring" where
  "UTF16EncodeCodePoint v =
     (if v \<le> 65535 then [v]
      else [(v - 65536) div 1024 + 55296, (v - 65536) mod 1024 + 56320])"

text \<open>Second pass: plain code units are copied, escaped octets are UTF-8 decoded.\<close>

function decode_octets :: "(nat + nat) list \<Rightarrow> jsstring option" where
  "decode_octets [] = Some []"
| "decode_octets (Inl c # xs) = map_option ((#) c) (decode_octets xs)"
| "decode_octets (Inr b # xs) =
     (let n = leading_ones b in
      if n = 0 then map_option ((#) b) (decode_octets xs)
      else if n = 1 \<or> 4 < n then None
      else (case continuation_octets (n - 1) xs of
              None \<Rightarrow> None
            | Some cs \<Rightarrow>
                (case utf8_code_point b cs of
                   None \<Rightarrow> None
                 | Some v \<Rightarrow>
                     map_option ((@) (UTF16EncodeCodePoint v))
                       (decode_octets (drop (n - 1) xs)))))"
  by pat_completeness auto
termination
  by (relation "measure length") auto

definition decodeURIComponent :: "jsstring \<Rightarrow> jsstring option" where
  "decodeURIComponent s =
     (case unescape s of None \<Rightarrow> None | Some xs \<Rightarrow> decode_octets xs)"

section \<open>The OAuth callback page (\<open>CallbackContent\<close>)\<close>

subsection \<open>Data\<close>

text \<open>The \<open>state\<close> of the page: \<open>'loading' | 'success' | 'error'\<close>.\<close>

datatype flow_state = St_loading | St_success | St_error

text \<open>
  The status lines the page shows. The source's texts are Chinese; each constructor
  stands for one literal of the source, named by its meaning, and the template literals
  carry their interpolated string.
\<close>

datatype status_msg =
    Msg_processing
  | Msg_login_ok_fetching_profile
  | Msg_profile_failed_but_logged_in
  | Msg_user_auth_failed
  | Msg_login_ok_redirecting
  | Msg_url_params_unavailable
  | Msg_no_code_or_token
  | Msg_talking_to_github
  | Msg_github_timeout
  | Msg_network_error_check_settings
  | Msg_auth_failed jsstring
  | Msg_login_failed jsstring
  | Msg_login_failed_unknown
  | Msg_network_failed_retry
  | Msg_request_timeout
  | Msg_unknown_error_retry

text \<open>
  The session data handed to \<open>saveAuthData\<close>. \<open>'n\<close> is the type of JavaScript
  numbers; \<open>parseInt\<close> is a parameter of the model.
\<close>

record 'n auth_data =
  token :: jsstring
  refresh_token :: "jsstring option"
  expires_in :: "'n option"
  refresh_expires_in :: "'n option"
  success :: "bool option"

text \<open>The notifications of the email page (\<open>toast.success\<close>, \<open>toast.error\<close>).\<close>

datatype toast_msg =
    Toast_request_failed
  | Toast_code_wrong_or_expired
  | Toast_server_error
  | Toast_network_failed
  | Toast_unknown_error
  | Toast_code_sent jsstring
  | Toast_send_code_failed
  | Toast_server_message jsstring
  | Toast_login_ok
  | Toast_profile_failed_but_logged_in
  | Toast_user_auth_failed
  | Toast_login_failed_check_code

text \<open>
  What the pages do to the outside world, in the order they do it: calls of the
  \<open>authApi\<close> capabilities, \<open>saveAuthData\<close>, storage writes, scheduled navigation
  (\<open>setTimeout(() => router.push(url), delay)\<close>), status and state updates,
  notifications. Console output is left out.
\<close>

datatype 'n event =
    SaveAuthData "'n auth_data"
  | SetStatus status_msg
  | SetState flow_state
  | Call_getCurrentUser
  | Call_githubCallback jsstring
  | Call_sendEmailCode jsstring
  | Call_emailCodeLogin jsstring jsstring
  | LocalStorage_setItem_user_profile jsstring
  | SessionStorage_removeItem_auth_redirect
  | SetTimeout_router_push jsstring nat
  | Toast_success toast_msg
  | Toast_error toast_msg

text \<open>
  \<open>URLSearchParams\<close>: the query's name/value pairs in order; \<open>get\<close> returns the
  first value of a name. \<open>useSearchParams()\<close> may be \<open>null\<close>, hence the source's
  \<open>searchParams?.get(...)\<close>.
\<close>

type_synonym URLSearchParams = "(string \<times> jsstring) list"

definition opt_get :: "URLSearchParams option \<Rightarrow> string \<Rightarrow> jsstring option" where
  "opt_get sp name = (case sp of None \<Rightarrow> None | Some ps \<Rightarrow> map_of ps name)"

text \<open>
  The page and the browser state it reads and writes: the two React state variables,
  \<open>mounted\<close>, the search parameters, whether \<open>window\<close> is defined, the
  \<open>auth_redirect\<close> item of \<open>sessionStorage\<close> (and whether access to the storage
  throws), the \<open>user_profile\<close> item of \<open>localStorage\<close> (and whether writing it
  throws), and the effects so far.
\<close>

record 'n callback =
  status :: status_msg
  state :: flow_state
  mounted :: bool
  searchParams :: "URLSearchParams option"
  window_defined :: bool
  sessionStorage_throws :: bool
  auth_redirect :: "jsstring option"
  localStorage_throws :: bool
  user_profile :: "jsstring option"
  events :: "'n event list"

definition emit :: "'n event \<Rightarrow> 'n callback \<Rightarrow> 'n callback" where
  "emit e c = c\<lparr>events := events c @ [e]\<rparr>"

definition setStatus :: "status_msg \<Rightarrow> 'n callback \<Rightarrow> 'n callback" where
  "setStatus m c = emit (SetStatus m) (c\<lparr>status := m\<rparr>)"

definition setState :: "flow_state \<Rightarrow> 'n callback \<Rightarrow> 'n callback" where
  "setState st c = emit (SetState st) (c\<lparr>state := st\<rparr>)"

subsection \<open>getRedirectUrl\<close>

text \<open>
  The result is the returned path, or the exception that leaves the function
  (\<open>Inl\<close>). The \<open>state\<close> parameter is decoded inside \<open>try\<close>/\<open>catch\<close>; the
  \<open>redirect_to\<close>/\<open>returnTo\<close> value is decoded outside any handler.
\<close>

definition getRedirectUrl :: "'n callback \<Rightarrow> (js_exn + jsstring) \<times> 'n callback" where
  "getRedirectUrl c =
     (case (case truthy_value (opt_get (searchParams c) ''state'') of
              None \<Rightarrow> None
            | Some s \<Rightarrow> decodeURIComponent s) of
        Some url \<Rightarrow> (Inr url, c)
      | None \<Rightarrow>
          (case truthy_value (or_else (opt_get (searchParams c) ''redirect_to'')
                                      (opt_get (searchParams c) ''returnTo'')) of
             Some redirectTo \<Rightarrow>
               (case decodeURIComponent redirectTo of
                  None \<Rightarrow> (Inl URIError, c)
                | Some url \<Rightarrow> (Inr url, c))
           | None \<Rightarrow>
               (if mounted c \<and> window_defined c then
                  (if sessionStorage_throws c then (Inr (js ''/''), c)
                   else (case truthy_value (auth_redirect c) of
                           Some savedRedirect \<Rightarrow>
                             (Inr savedRedirect,
                              emit SessionStorage_removeItem_auth_redirect
                                (c\<lparr>auth_redirect := None\<rparr>))
                         | None \<Rightarrow> (Inr (js ''/''), c)))
                else (Inr (js ''/''), c))))"

subsection \<open>handleAuthSuccess\<close>

text \<open>
  The request layer behind \<open>authApi\<close> is not part of the page. A call of
  \<open>getCurrentUser\<close> is described by what the page can observe of it: the callbacks of
  the handler object the request layer invokes while the call runs, in order, and then
  either an exception (\<open>Inl\<close>) or the returned \<open>userResponse?.data\<close> (its JSON
  text when it is truthy).
\<close>

datatype handler_key = OnError | Unauthorized | Forbidden | ServerError | NetworkError | Default

record profile_fetch =
  pf_invoked :: "handler_key list"
  pf_returned :: "js_exn + jsstring option"

text \<open>The handler object \<open>handleAuthSuccess\<close> passes: \<open>onError\<close> and \<open>unauthorized\<close>.\<close>

definition authSuccess_handler :: "handler_key \<Rightarrow> 'n callback \<Rightarrow> 'n callback" where
  "authSuccess_handler k c =
     (case k of
        OnError \<Rightarrow> setStatus Msg_profile_failed_but_logged_in c
      | Unauthorized \<Rightarrow> setState St_error (setStatus Msg_user_auth_failed c)
      | _ \<Rightarrow> c)"

definition store_profile :: "profile_fetch \<Rightarrow> 'n callback \<Rightarrow> 'n callback" where
  "store_profile pf c =
     (case pf_returned pf of
        Inl e \<Rightarrow> setStatus Msg_profile_failed_but_logged_in c
      | Inr None \<Rightarrow> c
      | Inr (Some profile) \<Rightarrow>
          (if window_defined c then
             (if localStorage_throws c then setStatus Msg_profile_failed_but_logged_in c
              else setStatus Msg_login_ok_redirecting
                     (emit (LocalStorage_setItem_user_profile profile)
                        (c\<lparr>user_profile := Some profile\<rparr>)))
           else c))"

text \<open>
  \<open>handleAuthSuccess\<close>: the first component is the exception that leaves the
  function, if any (only \<open>getRedirectUrl\<close> stands outside the \<open>try\<close> block;
  \<open>saveAuthData\<close>, the React setters and \<open>setTimeout\<close> return normally).
\<close>

definition handleAuthSuccess ::
  "profile_fetch \<Rightarrow> 'n auth_data \<Rightarrow> 'n callback \<Rightarrow> js_exn option \<times> 'n callback" where
  "handleAuthSuccess pf authData c =
     (let c1 = emit (SaveAuthData authData) c;
          c2 = setStatus Msg_login_ok_fetching_profile c1;
          c3 = setState St_success c2;
          c4 = emit Call_getCurrentUser c3;
          c5 = fold authSuccess_handler (pf_invoked pf) c4;
          c6 = store_profile pf c5
      in (case getRedirectUrl c6 of
            (Inl e, c7) \<Rightarrow> (Some e, c7)
          | (Inr redirectUrl, c7) \<Rightarrow> (None, emit (SetTimeout_router_push redirectUrl 1000) c7)))"

subsection \<open>processAuth\<close>

text \<open>The result of \<open>authApi.githubCallback\<close>: \<open>{ data, error }\<close>.\<close>

record 'n api_response =
  resp_code :: int
  resp_message :: "jsstring option"
  resp_data :: "'n auth_data"

record 'n exchange_result =
  ex_data :: "'n api_response option"
  ex_error :: "jsstring option"

text \<open>
  A call of \<open>githubCallback\<close>: the arguments of the \<open>onError\<close> calls the request
  layer makes, then an exception or the result.
\<close>

record 'n exchange =
  ex_onError :: "js_exn list"
  ex_returned :: "js_exn + 'n exchange_result"

text \<open>The two-character patterns are the source's words for "timeout" and "network".\<close>

definition exchange_onError :: "js_exn \<Rightarrow> 'n callback \<Rightarrow> 'n callback" where
  "exchange_onError e c =
     (case e of
        JsError m \<Rightarrow>
          (if includes_str m [36229, 26102] \<or> includes_str m (js ''timeout'')
           then setStatus Msg_github_timeout c
           else if includes_str m [32593, 32476]
           then setStatus Msg_network_error_check_settings c
           else setStatus (Msg_auth_failed m) c)
      | Thrown_other \<Rightarrow> c)"

text \<open>The \<open>catch (e)\<close> block of \<open>processAuth\<close>.\<close>

definition processAuth_catch :: "js_exn \<Rightarrow> 'n callback \<Rightarrow> 'n callback" where
  "processAuth_catch e c =
     setState St_error
       (case e of
          JsError m \<Rightarrow>
            (if includes_str m (js ''Failed to fetch'') \<or> includes_str m (js ''Network'')
             then setStatus Msg_network_failed_retry c
             else if includes_str m (js ''timeout'') \<or> includes_str m [36229, 26102]
             then setStatus Msg_request_timeout c
             else setStatus (Msg_auth_failed m) c)
        | Thrown_other \<Rightarrow> setStatus Msg_unknown_error_retry c)"

definition await_handleAuthSuccess ::
  "profile_fetch \<Rightarrow> 'n auth_data \<Rightarrow> 'n callback \<Rightarrow> 'n callback" where
  "await_handleAuthSuccess pf authData c =
     (case handleAuthSuccess pf authData c of
        (Some e, c') \<Rightarrow> processAuth_catch e c'
      | (None, c') \<Rightarrow> c')"

definition processAuth ::
  "(jsstring \<Rightarrow> 'n) \<Rightarrow> 'n exchange \<Rightarrow> profile_fetch \<Rightarrow> 'n callback \<Rightarrow> 'n callback" where
  "processAuth parseInt ex pf c =
     (case searchParams c of
        None \<Rightarrow> setState St_error (setStatus Msg_url_params_unavailable c)
      | Some sp \<Rightarrow>
          (case truthy_value (map_of sp ''token'') of
             Some tok \<Rightarrow>
               await_handleAuthSuccess pf
                 \<lparr>token = tok,
                  refresh_token = truthy_value (map_of sp ''refresh_token''),
                  expires_in = map_option parseInt (truthy_value (map_of sp ''expires_in'')),
                  refresh_expires_in =
                    map_option parseInt (truthy_value (map_of sp ''refresh_expires_in'')),
                  success = Some True\<rparr> c
           | None \<Rightarrow>
               (case truthy_value (map_of sp ''code'') of
                  None \<Rightarrow> setState St_error (setStatus Msg_no_code_or_token c)
                | Some code \<Rightarrow>
                    (let c1 = setStatus Msg_talking_to_github c;
                         c2 = emit (Call_githubCallback code) c1;
                         c3 = fold exchange_onError (ex_onError ex) c2
                     in (case ex_returned ex of
                           Inl e \<Rightarrow> processAuth_catch e c3
                         | Inr r \<Rightarrow>
                             (case truthy_value (ex_error r) of
                                Some err \<Rightarrow> setState St_error (setStatus (Msg_login_failed err) c3)
                              | None \<Rightarrow>
                                  (case ex_data r of
                                     None \<Rightarrow> setState St_error (setStatus Msg_login_failed_unknown c3)
                                   | Some d \<Rightarrow>
                                       (if resp_code d = 200
                                        then await_handleAuthSuccess pf (resp_data d) c3
                                        else (case truthy_value (resp_message d) of
                                                Some m \<Rightarrow>
                                                  setState St_error (setStatus (Msg_login_failed m) c3)
                                              | None \<Rightarrow>
                                                  setState St_error
                                                    (setStatus Msg_login_failed_unknown c3))))))))))"

text \<open>The effect that runs \<open>processAuth\<close>: only once the page is mounted.\<close>

definition auth_effect ::
  "(jsstring \<Rightarrow> 'n) \<Rightarrow> 'n exchange \<Rightarrow> profile_fetch \<Rightarrow> 'n callback \<Rightarrow> 'n callback" where
  "auth_effect parseInt ex pf c = (if \<not> mounted c then c else processAuth parseInt ex pf c)"

text \<open>
  The page once it is mounted in a browser with working storage, before
  \<open>processAuth\<close> runs: the given search parameters and stashed redirect.
\<close>

definition initial_callback ::
  "URLSearchParams option \<Rightarrow> jsstring option \<Rightarrow> 'n callback" where
  "initial_callback sp stash =
     \<lparr>status = Msg_processing, state = St_loading, mounted = True, searchParams = sp,
      window_defined = True, sessionStorage_throws = False, auth_redirect = stash,
      localStorage_throws = False, user_profile = None, events = []\<rparr>"

section \<open>The email login page (\<open>EmailLoginPage\<close>)\<close>

subsection \<open>The form schema\<close>

definition CODE_LENGTH :: nat where
  "CODE_LENGTH = 6"

text \<open>The regular expression class \<open>\d\<close>: the ASCII digits.\<close>

definition is_digit :: "nat \<Rightarrow> bool" where
  "is_digit c = (48 \<le> c \<and> c \<le> 57)"

text \<open>
  \<open>emailLoginSchema\<close>. The pattern behind zod's \<open>.email()\<close> belongs to the library;
  it is the parameter \<open>is_email\<close>. The code field: \<open>min(1)\<close>,
  \<open>length(CODE_LENGTH)\<close> and the pattern \<open>^\d+$\<close>.
\<close>

definition emailLoginSchema_email :: "(jsstring \<Rightarrow> bool) \<Rightarrow> jsstring \<Rightarrow> bool" where
  "emailLoginSchema_email is_email e = (1 \<le> length e \<and> is_email e \<and> length e \<le> 100)"

definition emailLoginSchema_code :: "jsstring \<Rightarrow> bool" where
  "emailLoginSchema_code c =
     (1 \<le> length c \<and> length c = CODE_LENGTH \<and> (c \<noteq> [] \<and> list_all is_digit c))"

definition emailLoginSchema :: "(jsstring \<Rightarrow> bool) \<Rightarrow> jsstring \<Rightarrow> jsstring \<Rightarrow> bool" where
  "emailLoginSchema is_email e c = (emailLoginSchema_email is_email e \<and> emailLoginSchema_code c)"

subsection \<open>Page state\<close>

text \<open>
  The React state (\<open>countdown\<close>, \<open>isSubmitting\<close>, \<open>isSendingCode\<close>), the form
  fields, \<open>timerRef.current\<close>, and the part of the browser the page touches: the
  interval timers that are armed (\<open>intervals\<close>, by handle; \<open>setInterval\<close> hands out
  \<open>next_handle\<close>), \<open>window\<close>, the \<open>user_profile\<close> item of \<open>localStorage\<close>, and
  the effects so far. A timer handle is always truthy.
\<close>

record 'n email_page =
  countdown :: int
  isSubmitting :: bool
  isSendingCode :: bool
  form_email :: jsstring
  form_code :: jsstring
  timerRef :: "nat option"
  intervals :: "nat list"
  next_handle :: nat
  page_window_defined :: bool
  page_localStorage_throws :: bool
  page_user_profile :: "jsstring option"
  page_events :: "'n event list"

definition page_emit :: "'n event \<Rightarrow> 'n email_page \<Rightarrow> 'n email_page" where
  "page_emit e s = s\<lparr>page_events := page_events s @ [e]\<rparr>"

definition initial_page :: "'n email_page" where
  "initial_page =
     \<lparr>countdown = 0, isSubmitting = False, isSendingCode = False, form_email = [],
      form_code = [], timerRef = None, intervals = [], next_handle = 1,
      page_window_defined = True, page_localStorage_throws = False,
      page_user_profile = None, page_events = []\<rparr>"

subsection \<open>The countdown timer\<close>

definition clearInterval :: "nat \<Rightarrow> 'n email_page \<Rightarrow> 'n email_page" where
  "clearInterval h s = s\<lparr>intervals := removeAll h (intervals s)\<rparr>"

definition clearTimer :: "'n email_page \<Rightarrow> 'n email_page" where
  "clearTimer s =
     (case timerRef s of
        None \<Rightarrow> s
      | Some h \<Rightarrow> (clearInterval h s)\<lparr>timerRef := None\<rparr>)"

text \<open>The callback of the interval: \<open>setCountdown((prev) => ...)\<close>.\<close>

definition countdown_tick :: "'n email_page \<Rightarrow> 'n email_page" where
  "countdown_tick s =
     (if countdown s \<le> 1 then (clearTimer s)\<lparr>countdown := 0\<rparr>
      else s\<lparr>countdown := countdown s - 1\<rparr>)"

definition startCountdown :: "'n email_page \<Rightarrow> 'n email_page" where
  "startCountdown s =
     (let s1 = clearTimer s;
          s2 = s1\<lparr>countdown := 60\<rparr>;
          h = next_handle s2
      in s2\<lparr>intervals := intervals s2 @ [h], next_handle := Suc h, timerRef := Some h\<rparr>)"

text \<open>
  One second passes: every interval that is armed fires its callback once, in the order
  the intervals were armed; an interval cleared by an earlier callback of the same round
  no longer fires.
\<close>

definition second_elapses :: "'n email_page \<Rightarrow> 'n email_page" where
  "second_elapses s =
     fold (\<lambda>h s'. if h \<in> set (intervals s') then countdown_tick s' else s') (intervals s) s"

text \<open>
  The countdown part of the guard of \<open>handleSendCode\<close> (\<open>countdown > 0\<close> suppresses
  the request) and of the button's \<open>disabled\<close> condition.
\<close>

definition canRequest :: "'n email_page \<Rightarrow> bool" where
  "canRequest s = (\<not> 0 < countdown s)"

text \<open>Every armed interval is the one \<open>timerRef\<close> holds.\<close>

definition timer_inv :: "'n email_page \<Rightarrow> bool" where
  "timer_inv s = (intervals s = (case timerRef s of None \<Rightarrow> [] | Some h \<Rightarrow> [h]))"

subsection \<open>Notifications and the request layer\<close>

definition toast_success :: "toast_msg \<Rightarrow> 'n email_page \<Rightarrow> 'n email_page" where
  "toast_success m s = page_emit (Toast_success m) s"

definition toast_error :: "toast_msg \<Rightarrow> 'n email_page \<Rightarrow> 'n email_page" where
  "toast_error m s = page_emit (Toast_error m) s"

text \<open>
  A handler object gives, for each callback it supplies, the notification that callback
  shows (all callbacks of this page only call \<open>toast.error\<close>). \<open>errorHandler\<close> is
  the object passed to \<open>sendEmailCode\<close> and \<open>emailCodeLogin\<close>.
\<close>

definition errorHandler :: "handler_key \<Rightarrow> toast_msg option" where
  "errorHandler k =
     (case k of
        OnError \<Rightarrow> Some Toast_request_failed
      | Forbidden \<Rightarrow> Some Toast_code_wrong_or_expired
      | ServerError \<Rightarrow> Some Toast_server_error
      | NetworkError \<Rightarrow> Some Toast_network_failed
      | Default \<Rightarrow> Some Toast_unknown_error
      | Unauthorized \<Rightarrow> None)"

text \<open>The object \<open>onSubmit\<close> passes to \<open>getCurrentUser\<close>.\<close>

definition onSubmit_profileHandler :: "handler_key \<Rightarrow> toast_msg option" where
  "onSubmit_profileHandler k =
     (case k of
        OnError \<Rightarrow> Some Toast_profile_failed_but_logged_in
      | Unauthorized \<Rightarrow> Some Toast_user_auth_failed
      | _ \<Rightarrow> None)"

definition run_handler ::
  "(handler_key \<Rightarrow> toast_msg option) \<Rightarrow> handler_key \<Rightarrow> 'n email_page \<Rightarrow> 'n email_page" where
  "run_handler handler k s = (case handler k of None \<Rightarrow> s | Some m \<Rightarrow> toast_error m s)"

text \<open>
  A call of \<open>sendEmailCode\<close> or \<open>emailCodeLogin\<close> as the page observes it: the
  callbacks of \<open>errorHandler\<close> the request layer invokes, and the result object
  \<open>{ data, error }\<close> the call resolves to (the page awaits these two calls outside any
  \<open>try\<close> block and reads failures from \<open>error\<close>).
\<close>

record send_response =
  sr_code :: int
  sr_message :: "jsstring option"

record send_call =
  sc_invoked :: "handler_key list"
  sc_data :: "send_response option"
  sc_error :: "jsstring option"

record 'n login_call =
  lg_invoked :: "handler_key list"
  lg_data :: "'n api_response option"
  lg_error :: "jsstring option"

subsection \<open>handleSendCode\<close>

definition handleSendCode ::
  "(jsstring \<Rightarrow> bool) \<Rightarrow> send_call \<Rightarrow> 'n email_page \<Rightarrow> 'n email_page" where
  "handleSendCode is_email sc s =
     (if \<not> emailLoginSchema_email is_email (form_email s) \<or> form_email s = [] then s
      else if isSendingCode s \<or> 0 < countdown s then s
      else
        (let s1 = s\<lparr>isSendingCode := True\<rparr>;
             s2 = page_emit (Call_sendEmailCode (form_email s)) s1;
             s3 = fold (run_handler errorHandler) (sc_invoked sc) s2
         in (case truthy_value (sc_error sc) of
               Some e \<Rightarrow> s3\<lparr>isSendingCode := False\<rparr>
             | None \<Rightarrow>
                 (case sc_data sc of
                    None \<Rightarrow> (toast_error Toast_send_code_failed s3)\<lparr>isSendingCode := False\<rparr>
                  | Some d \<Rightarrow>
                      (if sr_code d = 201
                       then (startCountdown (toast_success (Toast_code_sent (form_email s)) s3))
                              \<lparr>isSendingCode := False\<rparr>
                       else (case truthy_value (sr_message d) of
                               Some m \<Rightarrow>
                                 (toast_error (Toast_server_message m) s3)
                                   \<lparr>isSendingCode := False\<rparr>
                             | None \<Rightarrow>
                                 (toast_error Toast_send_code_failed s3)
                                   \<lparr>isSendingCode := False\<rparr>))))))"

subsection \<open>onSubmit and handleSubmit\<close>

definition page_store_profile :: "profile_fetch \<Rightarrow> 'n email_page \<Rightarrow> 'n email_page" where
  "page_store_profile pf s =
     (case pf_returned pf of
        Inl e \<Rightarrow> toast_error Toast_profile_failed_but_logged_in s
      | Inr None \<Rightarrow> s
      | Inr (Some profile) \<Rightarrow>
          (if page_window_defined s then
             (if page_localStorage_throws s
              then toast_error Toast_profile_failed_but_logged_in s
              else page_emit (LocalStorage_setItem_user_profile profile)
                     (s\<lparr>page_user_profile := Some profile\<rparr>))
           else s))"

definition onSubmit ::
  "'n login_call \<Rightarrow> profile_fetch \<Rightarrow> jsstring \<Rightarrow> jsstring \<Rightarrow> 'n email_page \<Rightarrow> 'n email_page" where
  "onSubmit lg pf email code s =
     (if isSubmitting s then s
      else
        (let s1 = s\<lparr>isSubmitting := True\<rparr>;
             s2 = page_emit (Call_emailCodeLogin email code) s1;
             s3 = fold (run_handler errorHandler) (lg_invoked lg) s2
         in (case truthy_value (lg_error lg) of
               Some e \<Rightarrow> s3\<lparr>isSubmitting := False\<rparr>
             | None \<Rightarrow>
                 (case lg_data lg of
                    None \<Rightarrow>
                      (toast_error Toast_login_failed_check_code s3)\<lparr>isSubmitting := False\<rparr>
                  | Some d \<Rightarrow>
                      (if resp_code d = 201
                       then
                         (let s4 = toast_success Toast_login_ok s3;
                              s5 = page_emit (SaveAuthData (resp_data d)) s4;
                              s6 = page_emit Call_getCurrentUser s5;
                              s7 = fold (run_handler onSubmit_profileHandler) (pf_invoked pf) s6;
                              s8 = page_store_profile pf s7;
                              s9 = clearTimer s8;
                              s10 = page_emit (SetTimeout_router_push (js ''/'') 1000) s9
                          in s10\<lparr>isSubmitting := False\<rparr>)
                       else (case truthy_value (resp_message d) of
                               Some m \<Rightarrow>
                                 (toast_error (Toast_server_message m) s3)
                                   \<lparr>isSubmitting := False\<rparr>
                             | None \<Rightarrow>
                                 (toast_error Toast_login_failed_check_code s3)
                                   \<lparr>isSubmitting := False\<rparr>))))))"

text \<open>
  \<open>handleSubmit(onSubmit)\<close> of react-hook-form with \<open>zodResolver(emailLoginSchema)\<close>:
  the form values are validated by the resolver, and \<open>onSubmit\<close> is called with them
  only when the schema accepts them.
\<close>

definition handleSubmit ::
  "(jsstring \<Rightarrow> bool) \<Rightarrow> 'n login_call \<Rightarrow> profile_fetch \<Rightarrow> 'n email_page \<Rightarrow> 'n email_page" where
  "handleSubmit is_email lg pf s =
     (if emailLoginSchema is_email (form_email s) (form_code s)
      then onSubmit lg pf (form_email s) (form_code s) s
      else s)"

subsection \<open>handleCodeChange\<close>

text \<open>\<open>e.target.value.replace(/\D/g, '').slice(0, CODE_LENGTH)\<close>, stored in the form.\<close>

definition handleCodeChange :: "jsstring \<Rightarrow> 'n email_page \<Rightarrow> 'n email_page" where
  "handleCodeChange v s = s\<lparr>form_code := take CODE_LENGTH (filter is_digit v)\<rparr>"

section \<open>Vocabulary of the properties\<close>

text \<open>The effects a run of a handler adds to those already there.\<close>

definition new_events :: "'n callback \<Rightarrow> 'n callback \<Rightarrow> 'n event list" where
  "new_events c c' = drop (length (events c)) (events c')"

definition page_new_events :: "'n email_page \<Rightarrow> 'n email_page \<Rightarrow> 'n event list" where
  "page_new_events s s' = drop (length (page_events s)) (page_events s')"

definition persists_session :: "'n event \<Rightarrow> bool" where
  "persists_session e = (case e of SaveAuthData a \<Rightarrow> True | _ \<Rightarrow> False)"

definition schedules_navigation :: "'n event \<Rightarrow> bool" where
  "schedules_navigation e = (case e of SetTimeout_router_push url d \<Rightarrow> True | _ \<Rightarrow> False)"

definition is_exchange_call :: "'n event \<Rightarrow> bool" where
  "is_exchange_call e = (case e of Call_githubCallback code \<Rightarrow> True | _ \<Rightarrow> False)"

definition is_login_call :: "'n event \<Rightarrow> bool" where
  "is_login_call e = (case e of Call_emailCodeLogin email code \<Rightarrow> True | _ \<Rightarrow> False)"

text \<open>\<open>c'\<close> has the effects of \<open>c\<close> and after them only effects that satisfy \<open>P\<close>.\<close>

definition only_adds :: "('n event \<Rightarrow> bool) \<Rightarrow> 'n callback \<Rightarrow> 'n callback \<Rightarrow> bool" where
  "only_adds P c c' =
     (take (length (events c)) (events c') = events c \<and> list_all P (new_events c c'))"

text \<open>
  A login attempt fails: the result carries an error (transport failure), or there is
  no response data, or the response's code is not 201.
\<close>

definition login_failed :: "'n login_call \<Rightarrow> bool" where
  "login_failed lg =
     (case truthy_value (lg_error lg) of
        Some e \<Rightarrow> True
      | None \<Rightarrow> (case lg_data lg of None \<Rightarrow> True | Some d \<Rightarrow> resp_code d \<noteq> 201))"

text \<open>
  No exception leaves \<open>getRedirectUrl\<close> for these search parameters: the
  \<open>state\<close> value decodes, or the \<open>redirect_to\<close>/\<open>returnTo\<close> value that
  is consulted in its place is absent or decodes.
\<close>

definition redirect_decodes :: "URLSearchParams option \<Rightarrow> bool" where
  "redirect_decodes sp =
     (case (case truthy_value (opt_get sp ''state'') of
              None \<Rightarrow> None
            | Some s \<Rightarrow> decodeURIComponent s) of
        Some url \<Rightarrow> True
      | None \<Rightarrow>
          (case truthy_value (or_else (opt_get sp ''redirect_to'') (opt_get sp ''returnTo'')) of
             None \<Rightarrow> True
           | Some redirectTo \<Rightarrow> decodeURIComponent redirectTo \<noteq> None))"

text \<open>The messages of the \<open>toast.error\<close> notifications among some effects.\<close>

definition failure_notifications :: "'n event list \<Rightarrow> toast_msg list" where
  "failure_notifications evs =
     List.map_filter (\<lambda>e. case e of Toast_error m \<Rightarrow> Some m | _ \<Rightarrow> None) evs"

subsection \<open>Example inputs\<close>

text \<open>
  A stand-in for the library's email pattern (the string contains \<open>@\<close>), a page whose
  form holds an accepted email and a five-digit code, a confirmed dispatch, and a login
  call that the request layer reports through the \<open>forbidden\<close> callback.
\<close>

definition example_is_email :: "jsstring \<Rightarrow> bool" where
  "example_is_email e = (64 \<in> set e)"

definition example_page :: "int email_page" where
  "example_page = initial_page\<lparr>form_email := js ''a@b.co'', form_code := js ''12345''\<rparr>"

definition example_dispatch :: send_call where
  "example_dispatch =
     \<lparr>sc_invoked = [], sc_data = Some \<lparr>sr_code = 201, sr_message = None\<rparr>, sc_error = None\<rparr>"

definition example_forbidden :: "int login_call" where
  "example_forbidden =
     \<lparr>lg_invoked = [Forbidden], lg_data = None, lg_error = Some (js ''Forbidden'')\<rparr>"

definition example_profile :: profile_fetch where
  "example_profile = \<lparr>pf_invoked = [], pf_returned = Inr None\<rparr>"

section \<open>The callback page: state and effects of \<open>handleAuthSuccess\<close>\<close>

lemma state_emit: "state (emit e c) = state c"
  by (simp add: emit_def)

lemma state_setStatus: "state (setStatus m c) = state c"
  by (simp add: setStatus_def emit_def)

lemma state_setState: "state (setState st c) = st"
  by (simp add: setState_def emit_def)

lemma state_authSuccess_handlers:
  "state (fold authSuccess_handler ks c) = (if Unauthorized \<in> set ks then St_error else state c)"
proof (induction ks arbitrary: c)
  case Nil
  show ?case by simp
next
  case (Cons k ks)
  show ?case
    by (cases k) (simp_all add: Cons.IH, simp_all add: authSuccess_handler_def state_setStatus state_setState)
qed

lemma state_store_profile: "state (store_profile pf c) = state c"
  by (simp add: store_profile_def state_setStatus state_emit split: sum.split option.split)

lemma state_getRedirectUrl: "state (snd (getRedirectUrl c)) = state c"
  by (simp add: getRedirectUrl_def state_emit split: option.split)

lemma handleAuthSuccess_state:
  "state (snd (handleAuthSuccess pf authData c)) =
     (if Unauthorized \<in> set (pf_invoked pf) then St_error else St_success)"
proof -
  define c6 where "c6 = store_profile pf (fold authSuccess_handler (pf_invoked pf)
     (emit Call_getCurrentUser (setState St_success
        (setStatus Msg_login_ok_fetching_profile (emit (SaveAuthData authData) c)))))"
  have s6: "state c6 = (if Unauthorized \<in> set (pf_invoked pf) then St_error else St_success)"
    by (simp add: c6_def state_store_profile state_authSuccess_handlers state_emit state_setState)
  have "state (snd (handleAuthSuccess pf authData c)) = state (snd (getRedirectUrl c6))"
    by (cases "getRedirectUrl c6")
       (auto simp add: handleAuthSuccess_def Let_def c6_def state_emit split: sum.split)
  then show ?thesis by (simp add: state_getRedirectUrl s6)
qed

subsection \<open>Effects are only appended\<close>

lemma only_adds_step:
  "events c' = events c @ xs \<Longrightarrow> list_all P xs \<Longrightarrow> only_adds P c c'"
  by (simp add: only_adds_def new_events_def)

lemma only_adds_append:
  assumes "only_adds P c c'"
  shows "events c' = events c @ new_events c c'"
proof -
  have "take (length (events c)) (events c') @ drop (length (events c)) (events c') = events c'"
    by (rule append_take_drop_id)
  moreover have "take (length (events c)) (events c') = events c"
    using assms by (simp add: only_adds_def)
  ultimately show ?thesis by (simp add: new_events_def)
qed

lemma only_adds_refl: "only_adds P c c"
  by (rule only_adds_step[where xs = "[]"]) simp_all

lemma only_adds_trans:
  assumes "only_adds P a b" "only_adds P b c"
  shows "only_adds P a c"
proof (rule only_adds_step)
  show "events c = events a @ (new_events a b @ new_events b c)"
    using only_adds_append[OF assms(1)] only_adds_append[OF assms(2)] by simp
  show "list_all P (new_events a b @ new_events b c)"
    using assms by (simp add: only_adds_def)
qed

lemma only_adds_emit: "P e \<Longrightarrow> only_adds P c (emit e c)"
  by (rule only_adds_step[where xs = "[e]"]) (simp_all add: emit_def)

lemma only_adds_setStatus: "P (SetStatus m) \<Longrightarrow> only_adds P c (setStatus m c)"
  by (rule only_adds_step[where xs = "[SetStatus m]"]) (simp_all add: setStatus_def emit_def)

lemma only_adds_setState: "P (SetState st) \<Longrightarrow> only_adds P c (setState st c)"
  by (rule only_adds_step[where xs = "[SetState st]"]) (simp_all add: setState_def emit_def)

lemma no_exchange_simps:
  "\<not> is_exchange_call (SaveAuthData a)"
  "\<not> is_exchange_call (SetStatus m)"
  "\<not> is_exchange_call (SetState st)"
  "\<not> is_exchange_call Call_getCurrentUser"
  "\<not> is_exchange_call (LocalStorage_setItem_user_profile p)"
  "\<not> is_exchange_call SessionStorage_removeItem_auth_redirect"
  "\<not> is_exchange_call (SetTimeout_router_push url d)"
  by (simp_all add: is_exchange_call_def)

lemma only_adds_status_state:
  "only_adds (\<lambda>e. \<not> is_exchange_call e) c (setState st (setStatus m c))"
  by (rule only_adds_trans[OF only_adds_setStatus only_adds_setState])
     (simp_all add: no_exchange_simps)

lemma only_adds_authSuccess_handler:
  "only_adds (\<lambda>e. \<not> is_exchange_call e) c (authSuccess_handler k c)"
  by (cases k)
     (simp_all add: authSuccess_handler_def no_exchange_simps only_adds_refl
           only_adds_setStatus only_adds_status_state)

lemma only_adds_authSuccess_handlers:
  "only_adds (\<lambda>e. \<not> is_exchange_call e) c (fold authSuccess_handler ks c)"
proof (induction ks arbitrary: c)
  case Nil
  show ?case by (simp add: only_adds_refl)
next
  case (Cons k ks)
  show ?case
    using only_adds_trans[OF only_adds_authSuccess_handler Cons.IH] by simp
qed

lemma only_adds_store_profile:
  "only_adds (\<lambda>e. \<not> is_exchange_call e) c (store_profile pf c)"
proof -
  have "only_adds (\<lambda>e. \<not> is_exchange_call e) c
          (setStatus Msg_login_ok_redirecting
             (emit (LocalStorage_setItem_user_profile p) (c\<lparr>user_profile := Some p\<rparr>)))" for p
    by (rule only_adds_step[where xs = "[LocalStorage_setItem_user_profile p, SetStatus Msg_login_ok_redirecting]"])
       (simp_all add: setStatus_def emit_def no_exchange_simps)
  then show ?thesis
    by (simp add: store_profile_def only_adds_refl only_adds_setStatus no_exchange_simps
             split: sum.split option.split)
qed

lemma only_adds_getRedirectUrl:
  "only_adds (\<lambda>e. \<not> is_exchange_call e) c (snd (getRedirectUrl c))"
proof -
  have "only_adds (\<lambda>e. \<not> is_exchange_call e) c
          (emit SessionStorage_removeItem_auth_redirect (c\<lparr>auth_redirect := None\<rparr>))"
    by (rule only_adds_step[where xs = "[SessionStorage_removeItem_auth_redirect]"])
       (simp_all add: emit_def no_exchange_simps)
  then show ?thesis
    by (simp add: getRedirectUrl_def only_adds_refl split: option.split)
qed

lemma only_adds_processAuth_catch:
  "only_adds (\<lambda>e. \<not> is_exchange_call e) c (processAuth_catch e c)"
  by (cases e) (simp_all add: processAuth_catch_def only_adds_status_state)

text \<open>
  \<open>handleAuthSuccess\<close> first persists the session, sets the status and the state and
  calls \<open>getCurrentUser\<close>; nothing it does afterwards is a call of the code exchange.
\<close>

lemma handleAuthSuccess_events:
  "\<exists>xs. events (snd (handleAuthSuccess pf a c)) =
          events c @ [SaveAuthData a, SetStatus Msg_login_ok_fetching_profile,
                      SetState St_success, Call_getCurrentUser] @ xs \<and>
        list_all (\<lambda>e. \<not> is_exchange_call e) xs"
proof -
  define c4 where "c4 = emit Call_getCurrentUser (setState St_success
        (setStatus Msg_login_ok_fetching_profile (emit (SaveAuthData a) c)))"
  define c6 where "c6 = store_profile pf (fold authSuccess_handler (pf_invoked pf) c4)"
  have e4: "events c4 = events c @ [SaveAuthData a, SetStatus Msg_login_ok_fetching_profile,
                      SetState St_success, Call_getCurrentUser]"
    by (simp add: c4_def emit_def setState_def setStatus_def)
  have a6: "only_adds (\<lambda>e. \<not> is_exchange_call e) c4 c6"
    unfolding c6_def
    by (rule only_adds_trans[OF only_adds_authSuccess_handlers only_adds_store_profile])
  have a7: "only_adds (\<lambda>e. \<not> is_exchange_call e) c6 (snd (getRedirectUrl c6))"
    by (rule only_adds_getRedirectUrl)
  have a8: "only_adds (\<lambda>e. \<not> is_exchange_call e) (snd (getRedirectUrl c6))
              (snd (handleAuthSuccess pf a c))"
  proof (cases "getRedirectUrl c6")
    case (Pair r c7)
    show ?thesis
    proof (cases r)
      case (Inl e)
      with Pair show ?thesis
        by (simp add: handleAuthSuccess_def Let_def c6_def c4_def only_adds_refl)
    next
      case (Inr url)
      with Pair show ?thesis
        by (simp add: handleAuthSuccess_def Let_def c6_def c4_def only_adds_emit no_exchange_simps)
    qed
  qed
  have "only_adds (\<lambda>e. \<not> is_exchange_call e) c4 (snd (handleAuthSuccess pf a c))"
    by (rule only_adds_trans[OF only_adds_trans[OF a6 a7] a8])
  then have "events (snd (handleAuthSuccess pf a c)) =
               events c4 @ new_events c4 (snd (handleAuthSuccess pf a c)) \<and>
             list_all (\<lambda>e. \<not> is_exchange_call e) (new_events c4 (snd (handleAuthSuccess pf a c)))"
    using only_adds_append by (auto simp add: only_adds_def)
  then show ?thesis using e4 by auto
qed

lemma await_handleAuthSuccess_events:
  "\<exists>xs. events (await_handleAuthSuccess pf a c) =
          events c @ [SaveAuthData a, SetStatus Msg_login_ok_fetching_profile,
                      SetState St_success, Call_getCurrentUser] @ xs \<and>
        list_all (\<lambda>e. \<not> is_exchange_call e) xs"
proof -
  obtain xs where xs: "events (snd (handleAuthSuccess pf a c)) =
          events c @ [SaveAuthData a, SetStatus Msg_login_ok_fetching_profile,
                      SetState St_success, Call_getCurrentUser] @ xs"
        "list_all (\<lambda>e. \<not> is_exchange_call e) xs"
    using handleAuthSuccess_events by blast
  show ?thesis
  proof (cases "handleAuthSuccess pf a c")
    case (Pair r c')
    show ?thesis
    proof (cases r)
      case None
      with Pair xs show ?thesis by (simp add: await_handleAuthSuccess_def)
    next
      case (Some e)
      have "only_adds (\<lambda>e. \<not> is_exchange_call e) c' (processAuth_catch e c')"
        by (rule only_adds_processAuth_catch)
      then have "events (processAuth_catch e c') = events c' @ new_events c' (processAuth_catch e c')"
         "list_all (\<lambda>e. \<not> is_exchange_call e) (new_events c' (processAuth_catch e c'))"
        using only_adds_append by (auto simp add: only_adds_def)
      with Pair Some xs show ?thesis
        by (simp add: await_handleAuthSuccess_def)
    qed
  qed
qed

subsection \<open>The resolution order of \<open>getRedirectUrl\<close>\<close>

text \<open>
  Where no exception leaves it, \<open>getRedirectUrl\<close> takes the first usable source:
  the decoded \<open>state\<close>, the decoded \<open>redirect_to\<close>, the decoded
  \<open>returnTo\<close>, the stashed redirect (which it erases, so that a second call returns
  the root), the root.
\<close>

lemma or_else_first: "truthy_value a = Some r \<Longrightarrow> truthy_value (or_else a b) = Some r"
  by (cases a) (auto simp add: or_else_def truthy_value_def split: if_splits)

lemma or_else_second: "truthy_value a = None \<Longrightarrow> or_else a b = b"
  by (simp add: or_else_def)

lemma getRedirectUrl_state_first:
  assumes "truthy_value (opt_get (searchParams c) ''state'') = Some s"
    and "decodeURIComponent s = Some url"
  shows "getRedirectUrl c = (Inr url, c)"
  using assms by (simp add: getRedirectUrl_def)

lemma getRedirectUrl_redirect_to_second:
  assumes "(case truthy_value (opt_get (searchParams c) ''state'') of
              None \<Rightarrow> None | Some s \<Rightarrow> decodeURIComponent s) = None"
    and "truthy_value (opt_get (searchParams c) ''redirect_to'') = Some r"
    and "decodeURIComponent r = Some url"
  shows "getRedirectUrl c = (Inr url, c)"
  using assms by (simp add: getRedirectUrl_def or_else_first)

lemma getRedirectUrl_returnTo_third:
  assumes "(case truthy_value (opt_get (searchParams c) ''state'') of
              None \<Rightarrow> None | Some s \<Rightarrow> decodeURIComponent s) = None"
    and "truthy_value (opt_get (searchParams c) ''redirect_to'') = None"
    and "truthy_value (opt_get (searchParams c) ''returnTo'') = Some r"
    and "decodeURIComponent r = Some url"
  shows "getRedirectUrl c = (Inr url, c)"
  using assms by (simp add: getRedirectUrl_def or_else_second)

lemma getRedirectUrl_stash_fourth:
  assumes "(case truthy_value (opt_get (searchParams c) ''state'') of
              None \<Rightarrow> None | Some s \<Rightarrow> decodeURIComponent s) = None"
    and "truthy_value (opt_get (searchParams c) ''redirect_to'') = None"
    and "truthy_value (opt_get (searchParams c) ''returnTo'') = None"
    and "mounted c" "window_defined c" "\<not> sessionStorage_throws c"
    and "truthy_value (auth_redirect c) = Some saved"
  shows "fst (getRedirectUrl c) = Inr saved \<and>
         auth_redirect (snd (getRedirectUrl c)) = None \<and>
         fst (getRedirectUrl (snd (getRedirectUrl c))) = Inr (js ''/'')"
proof -
  have first: "getRedirectUrl c =
      (Inr saved, emit SessionStorage_removeItem_auth_redirect (c\<lparr>auth_redirect := None\<rparr>))"
    using assms by (simp add: getRedirectUrl_def or_else_second)
  have "getRedirectUrl (emit SessionStorage_removeItem_auth_redirect (c\<lparr>auth_redirect := None\<rparr>))
          = (Inr (js ''/''), emit SessionStorage_removeItem_auth_redirect (c\<lparr>auth_redirect := None\<rparr>))"
    using assms(1-3)
    by (simp add: getRedirectUrl_def or_else_second emit_def truthy_value_def)
  with first show ?thesis by (simp add: emit_def)
qed

lemma getRedirectUrl_root_last:
  assumes "(case truthy_value (opt_get (searchParams c) ''state'') of
              None \<Rightarrow> None | Some s \<Rightarrow> decodeURIComponent s) = None"
    and "truthy_value (opt_get (searchParams c) ''redirect_to'') = None"
    and "truthy_value (opt_get (searchParams c) ''returnTo'') = None"
    and "truthy_value (auth_redirect c) = None"
  shows "getRedirectUrl c = (Inr (js ''/''), c)"
  using assms by (simp add: getRedirectUrl_def or_else_second)

lemma getRedirectUrl_throws_only_URIError:
  "fst (getRedirectUrl c) = Inl e \<Longrightarrow> e = URIError"
  by (auto simp add: getRedirectUrl_def split: option.splits if_splits)

subsection \<open>The end of \<open>handleAuthSuccess\<close>\<close>

text \<open>
  Whatever the profile fetch did: when \<open>handleAuthSuccess\<close> returns, its last effect
  is the scheduled navigation; the only exception that can leave it is the
  \<open>URIError\<close> of \<open>getRedirectUrl\<close>.
\<close>

lemma handleAuthSuccess_returns_scheduled:
  assumes "fst (handleAuthSuccess pf a c) = None"
  shows "\<exists>url. last (events (snd (handleAuthSuccess pf a c))) = SetTimeout_router_push url 1000"
proof -
  define c6 where "c6 = store_profile pf (fold authSuccess_handler (pf_invoked pf)
     (emit Call_getCurrentUser (setState St_success
        (setStatus Msg_login_ok_fetching_profile (emit (SaveAuthData a) c)))))"
  obtain r c7 where r: "getRedirectUrl c6 = (r, c7)" by (cases "getRedirectUrl c6")
  show ?thesis
  proof (cases r)
    case (Inl e)
    with r assms show ?thesis
      by (simp add: handleAuthSuccess_def Let_def c6_def)
  next
    case (Inr url)
    with r show ?thesis
      by (simp add: handleAuthSuccess_def Let_def c6_def emit_def)
  qed
qed

lemma handleAuthSuccess_throws_only_URIError:
  assumes "fst (handleAuthSuccess pf a c) = Some e"
  shows "e = URIError"
proof -
  define c6 where "c6 = store_profile pf (fold authSuccess_handler (pf_invoked pf)
     (emit Call_getCurrentUser (setState St_success
        (setStatus Msg_login_ok_fetching_profile (emit (SaveAuthData a) c)))))"
  obtain r c7 where r: "getRedirectUrl c6 = (r, c7)" by (cases "getRedirectUrl c6")
  show ?thesis
  proof (cases r)
    case (Inl e')
    with r assms have "e' = e" by (simp add: handleAuthSuccess_def Let_def c6_def)
    moreover have "e' = URIError"
      using getRedirectUrl_throws_only_URIError[of c6 e'] r Inl by simp
    ultimately show ?thesis by simp
  next
    case (Inr url)
    with r assms show ?thesis
      by (simp add: handleAuthSuccess_def Let_def c6_def)
  qed
qed

subsection \<open>Runs in which \<open>getRedirectUrl\<close> returns\<close>

text \<open>
  Nothing \<open>handleAuthSuccess\<close> does before it calls \<open>getRedirectUrl\<close> changes the
  search parameters, so whether an exception leaves it is decided by them alone.
\<close>

lemma searchParams_emit: "searchParams (emit e c) = searchParams c"
  by (simp add: emit_def)

lemma searchParams_setStatus: "searchParams (setStatus m c) = searchParams c"
  by (simp add: setStatus_def emit_def)

lemma searchParams_setState: "searchParams (setState st c) = searchParams c"
  by (simp add: setState_def emit_def)

lemma searchParams_authSuccess_handlers:
  "searchParams (fold authSuccess_handler ks c) = searchParams c"
proof (induction ks arbitrary: c)
  case Nil
  show ?case by simp
next
  case (Cons k ks)
  show ?case
    by (cases k)
       (simp_all add: Cons.IH,
        simp_all add: authSuccess_handler_def searchParams_setStatus searchParams_setState)
qed

lemma searchParams_store_profile: "searchParams (store_profile pf c) = searchParams c"
  by (simp add: store_profile_def searchParams_setStatus searchParams_emit
        split: sum.split option.split)

lemma getRedirectUrl_returns:
  assumes "redirect_decodes (searchParams c)"
  shows "\<exists>url. fst (getRedirectUrl c) = Inr url"
  using assms
  by (auto simp add: redirect_decodes_def getRedirectUrl_def split: option.splits)

lemma handleAuthSuccess_returns:
  assumes "redirect_decodes (searchParams c)"
  shows "fst (handleAuthSuccess pf a c) = None"
proof -
  define c6 where "c6 = store_profile pf (fold authSuccess_handler (pf_invoked pf)
     (emit Call_getCurrentUser (setState St_success
        (setStatus Msg_login_ok_fetching_profile (emit (SaveAuthData a) c)))))"
  have "searchParams c6 = searchParams c"
    by (simp add: c6_def searchParams_store_profile searchParams_authSuccess_handlers
          searchParams_emit searchParams_setState searchParams_setStatus)
  with assms obtain url where "fst (getRedirectUrl c6) = Inr url"
    using getRedirectUrl_returns[of c6] by auto
  then show ?thesis
    by (cases "getRedirectUrl c6") (simp add: handleAuthSuccess_def Let_def c6_def)
qed

subsection \<open>The token branch of \<open>processAuth\<close>\<close>

text \<open>
  With a truthy \<open>token\<close> the session data is built from the parameters, persisted,
  and the state set to Success, as the first effects; no effect is a call of
  \<open>githubCallback\<close>, whose answer the run never reads.
\<close>

lemma token_branch_effects:
  assumes "searchParams c = Some sp"
    and "truthy_value (map_of sp ''token'') = Some tok"
  shows "take 3 (new_events c (processAuth parseInt ex pf c)) =
           [SaveAuthData
              \<lparr>token = tok,
               refresh_token = truthy_value (map_of sp ''refresh_token''),
               expires_in = map_option parseInt (truthy_value (map_of sp ''expires_in'')),
               refresh_expires_in =
                 map_option parseInt (truthy_value (map_of sp ''refresh_expires_in'')),
               success = Some True\<rparr>,
            SetStatus Msg_login_ok_fetching_profile,
            SetState St_success] \<and>
         \<not> list_ex is_exchange_call (new_events c (processAuth parseInt ex pf c)) \<and>
         processAuth parseInt ex' pf c = processAuth parseInt ex pf c"
proof -
  define a where "a = \<lparr>token = tok,
               refresh_token = truthy_value (map_of sp ''refresh_token''),
               expires_in = map_option parseInt (truthy_value (map_of sp ''expires_in'')),
               refresh_expires_in =
                 map_option parseInt (truthy_value (map_of sp ''refresh_expires_in'')),
               success = Some True\<rparr>"
  have run: "processAuth parseInt e pf c = await_handleAuthSuccess pf a c" for e
    using assms by (simp add: processAuth_def a_def)
  obtain xs where xs: "events (await_handleAuthSuccess pf a c) =
          events c @ [SaveAuthData a, SetStatus Msg_login_ok_fetching_profile,
                      SetState St_success, Call_getCurrentUser] @ xs"
        "list_all (\<lambda>e. \<not> is_exchange_call e) xs"
    using await_handleAuthSuccess_events by blast
  have "take 3 (new_events c (await_handleAuthSuccess pf a c)) =
          [SaveAuthData a, SetStatus Msg_login_ok_fetching_profile, SetState St_success]"
    using xs(1) by (simp add: new_events_def)
  moreover have "\<not> list_ex is_exchange_call (new_events c (await_handleAuthSuccess pf a c))"
    using xs by (simp add: new_events_def no_exchange_simps list_ex_iff list_all_iff)
  ultimately show ?thesis by (simp add: run a_def)
qed

section \<open>Claims about the callback page\<close>

text \<open>
  Claim C1, as amended. \<open>handleAuthSuccess\<close> first persists the session and sets the
  state to Success. At its end the state is still Success for every outcome of the profile
  fetch in which the request layer does not invoke the \<open>unauthorized\<close> callback
  (a profile is returned or not, \<open>onError\<close> is invoked, the call throws, writing the
  profile to \<open>localStorage\<close> throws); when \<open>unauthorized\<close> is invoked the state
  is error.
\<close>

theorem profile_fetch_and_state:
  "take 3 (new_events c (snd (handleAuthSuccess pf authData c))) =
     [SaveAuthData authData, SetStatus Msg_login_ok_fetching_profile, SetState St_success] \<and>
   state (snd (handleAuthSuccess pf authData c)) =
     (if Unauthorized \<in> set (pf_invoked pf) then St_error else St_success)"
proof -
  obtain xs where "events (snd (handleAuthSuccess pf authData c)) =
          events c @ [SaveAuthData authData, SetStatus Msg_login_ok_fetching_profile,
                      SetState St_success, Call_getCurrentUser] @ xs"
    using handleAuthSuccess_events by blast
  then have "take 3 (new_events c (snd (handleAuthSuccess pf authData c))) =
     [SaveAuthData authData, SetStatus Msg_login_ok_fetching_profile, SetState St_success]"
    by (simp add: new_events_def)
  then show ?thesis by (simp add: handleAuthSuccess_state)
qed

text \<open>
  Claim C1 as stated fails: a profile fetch that signals \<open>unauthorized\<close> moves the
  state from Success to error, after the session has been persisted.
\<close>

theorem unauthorized_profile_fetch_sets_error:
  "take 3 (new_events (initial_callback (Some [(''token'', js ''abc123'')]) None :: int callback)
      (snd (handleAuthSuccess \<lparr>pf_invoked = [Unauthorized], pf_returned = Inr None\<rparr>
            \<lparr>token = js ''abc123'', refresh_token = None, expires_in = None,
             refresh_expires_in = None, success = Some True\<rparr>
            (initial_callback (Some [(''token'', js ''abc123'')]) None)))) =
     [SaveAuthData \<lparr>token = js ''abc123'', refresh_token = None, expires_in = None,
                    refresh_expires_in = None, success = Some True\<rparr>,
      SetStatus Msg_login_ok_fetching_profile, SetState St_success] \<and>
   state (snd (handleAuthSuccess \<lparr>pf_invoked = [Unauthorized], pf_returned = Inr None\<rparr>
            \<lparr>token = js ''abc123'', refresh_token = None, expires_in = None,
             refresh_expires_in = None, success = Some True\<rparr>
            (initial_callback (Some [(''token'', js ''abc123'')]) None :: int callback)))
     = St_error"
  by (simp add: handleAuthSuccess_def Let_def authSuccess_handler_def store_profile_def
        getRedirectUrl_def initial_callback_def setStatus_def setState_def emit_def
        opt_get_def truthy_value_def or_else_def js_def new_events_def)

text \<open>
  Claim C4, as amended. When the \<open>token\<close> parameter is present (its value is truthy,
  the test the source makes) and the redirect hint that \<open>getRedirectUrl\<close> consults
  decodes, \<open>processAuth\<close> builds the session data from the parameters, persists it and
  sets the state to Success as its first effects; no effect of the run is a call of
  \<open>githubCallback\<close>, and the run does not depend on what that call would have answered.
  The run ends with the navigation scheduled, in the state Success unless the profile fetch
  signalled \<open>unauthorized\<close>, and in the state error if it did.
\<close>

theorem token_parameter_reaches_success:
  assumes "searchParams c = Some sp"
    and "truthy_value (map_of sp ''token'') = Some tok"
    and "redirect_decodes (Some sp)"
  shows "take 3 (new_events c (processAuth parseInt ex pf c)) =
           [SaveAuthData
              \<lparr>token = tok,
               refresh_token = truthy_value (map_of sp ''refresh_token''),
               expires_in = map_option parseInt (truthy_value (map_of sp ''expires_in'')),
               refresh_expires_in =
                 map_option parseInt (truthy_value (map_of sp ''refresh_expires_in'')),
               success = Some True\<rparr>,
            SetStatus Msg_login_ok_fetching_profile,
            SetState St_success] \<and>
         \<not> list_ex is_exchange_call (new_events c (processAuth parseInt ex pf c)) \<and>
         processAuth parseInt ex' pf c = processAuth parseInt ex pf c \<and>
         state (processAuth parseInt ex pf c) =
           (if Unauthorized \<in> set (pf_invoked pf) then St_error else St_success) \<and>
         (\<exists>url. last (events (processAuth parseInt ex pf c)) = SetTimeout_router_push url 1000)"
proof -
  define a where "a = \<lparr>token = tok,
               refresh_token = truthy_value (map_of sp ''refresh_token''),
               expires_in = map_option parseInt (truthy_value (map_of sp ''expires_in'')),
               refresh_expires_in =
                 map_option parseInt (truthy_value (map_of sp ''refresh_expires_in'')),
               success = Some True\<rparr>"
  have none: "fst (handleAuthSuccess pf a c) = None"
    using assms(1,3) by (simp add: handleAuthSuccess_returns)
  have run: "processAuth parseInt ex pf c = snd (handleAuthSuccess pf a c)"
    using assms(1,2) none
    by (cases "handleAuthSuccess pf a c")
       (simp add: processAuth_def a_def await_handleAuthSuccess_def)
  have st: "state (processAuth parseInt ex pf c) =
           (if Unauthorized \<in> set (pf_invoked pf) then St_error else St_success)"
    unfolding run by (rule handleAuthSuccess_state)
  have nav: "\<exists>url. last (events (processAuth parseInt ex pf c)) = SetTimeout_router_push url 1000"
    unfolding run by (rule handleAuthSuccess_returns_scheduled[OF none])
  from token_branch_effects[OF assms(1,2), of parseInt ex pf ex'] st nav
  show ?thesis unfolding a_def by blast
qed

theorem token_parameter_reaches_success_witness:
  "searchParams (initial_callback (Some [(''token'', js ''abc123'')]) None :: int callback)
     = Some [(''token'', js ''abc123'')] \<and>
   truthy_value (map_of [(''token'', js ''abc123'')] ''token'') = Some (js ''abc123'') \<and>
   redirect_decodes (Some [(''token'', js ''abc123'')]) \<and>
   \<not> list_ex is_exchange_call
      (new_events (initial_callback (Some [(''token'', js ''abc123'')]) None :: int callback)
      (processAuth (\<lambda>s. 0) \<lparr>ex_onError = [], ex_returned = Inl Thrown_other\<rparr>
         \<lparr>pf_invoked = [], pf_returned = Inr None\<rparr>
         (initial_callback (Some [(''token'', js ''abc123'')]) None))) \<and>
   state (processAuth (\<lambda>s. 0) \<lparr>ex_onError = [], ex_returned = Inl Thrown_other\<rparr>
         \<lparr>pf_invoked = [], pf_returned = Inr None\<rparr>
         (initial_callback (Some [(''token'', js ''abc123'')]) None :: int callback)) = St_success"
proof -
  have h1: "searchParams (initial_callback (Some [(''token'', js ''abc123'')]) None :: int callback)
     = Some [(''token'', js ''abc123'')]"
    by (simp add: initial_callback_def)
  have h2: "truthy_value (map_of [(''token'', js ''abc123'')] ''token'') = Some (js ''abc123'')"
    by (simp add: truthy_value_def js_def)
  have h3: "redirect_decodes (Some [(''token'', js ''abc123'')])"
    by (simp add: redirect_decodes_def opt_get_def truthy_value_def or_else_def)
  show ?thesis
    using h1 h2 h3
      token_parameter_reaches_success[OF h1 h2 h3, where parseInt = "\<lambda>s. 0"
        and ex = "\<lparr>ex_onError = [], ex_returned = Inl Thrown_other\<rparr>"
        and pf = "\<lparr>pf_invoked = [], pf_returned = Inr None\<rparr>"]
    by simp
qed

text \<open>
  Claim C4 as stated fails: with only \<open>token\<close> present, a profile fetch that signals
  \<open>unauthorized\<close> leaves the flow in the state error, not Success.
\<close>

theorem token_with_unauthorized_profile_ends_in_error:
  "state (processAuth (\<lambda>s. 0) \<lparr>ex_onError = [], ex_returned = Inl Thrown_other\<rparr>
         \<lparr>pf_invoked = [Unauthorized], pf_returned = Inr None\<rparr>
         (initial_callback (Some [(''token'', js ''abc123'')]) None :: int callback)) = St_error"
  by (simp add: processAuth_def await_handleAuthSuccess_def handleAuthSuccess_def Let_def
        authSuccess_handler_def store_profile_def getRedirectUrl_def initial_callback_def
        setStatus_def setState_def emit_def opt_get_def truthy_value_def or_else_def js_def)

text \<open>
  Claim C3 at a failing input. A \<open>redirect_to\<close> value that does not percent-decode
  (\<open>%\<close>) makes \<open>getRedirectUrl\<close> throw \<open>URIError\<close>, although a stashed
  redirect is there to fall back on; an undecodable \<open>state\<close> is skipped, as the claim
  says of every source.
\<close>

theorem undecodable_redirect_to_throws:
  "fst (getRedirectUrl
          (initial_callback (Some [(''redirect_to'', js ''%'')]) (Some (js ''/settings''))
             :: int callback)) = Inl URIError \<and>
   fst (getRedirectUrl
          (initial_callback (Some [(''state'', js ''%''), (''redirect_to'', js ''/team'')]) None
             :: int callback)) = Inr (js ''/team'')"
  by (simp add: getRedirectUrl_def initial_callback_def opt_get_def truthy_value_def or_else_def
        js_def decodeURIComponent_def)

text \<open>
  Claim C2 at a failing input. With only \<open>returnTo\<close> present and not decodable,
  and a stashed redirect \<open>/settings\<close>, \<open>getRedirectUrl\<close> returns no path at all:
  it throws.
\<close>

theorem undecodable_returnTo_no_result:
  "fst (getRedirectUrl
          (initial_callback (Some [(''returnTo'', js ''/deals?off=100%'')])
             (Some (js ''/settings'')) :: int callback)) = Inl URIError"
  by (simp add: getRedirectUrl_def initial_callback_def opt_get_def truthy_value_def or_else_def
        js_def decodeURIComponent_def)

text \<open>
  Claim C10 at a failing input. With \<open>token\<close> present and an undecodable
  \<open>redirect_to\<close>, the session is persisted and the profile is fetched, but the
  exception of \<open>getRedirectUrl\<close> leaves \<open>handleAuthSuccess\<close> before
  \<open>setTimeout\<close>: no navigation is scheduled, and the \<open>catch\<close> block of
  \<open>processAuth\<close> sets the state to error.
\<close>

theorem persisted_session_without_redirect:
  "list_ex persists_session
     (events (processAuth (\<lambda>s. 0) \<lparr>ex_onError = [], ex_returned = Inl Thrown_other\<rparr>
        \<lparr>pf_invoked = [], pf_returned = Inr (Some (js ''{}''))\<rparr>
        (initial_callback (Some [(''token'', js ''abc123''), (''redirect_to'', js ''%'')]) None
           :: int callback))) \<and>
   \<not> list_ex schedules_navigation
     (events (processAuth (\<lambda>s. 0) \<lparr>ex_onError = [], ex_returned = Inl Thrown_other\<rparr>
        \<lparr>pf_invoked = [], pf_returned = Inr (Some (js ''{}''))\<rparr>
        (initial_callback (Some [(''token'', js ''abc123''), (''redirect_to'', js ''%'')]) None
           :: int callback))) \<and>
   state (processAuth (\<lambda>s. 0) \<lparr>ex_onError = [], ex_returned = Inl Thrown_other\<rparr>
        \<lparr>pf_invoked = [], pf_returned = Inr (Some (js ''{}''))\<rparr>
        (initial_callback (Some [(''token'', js ''abc123''), (''redirect_to'', js ''%'')]) None
           :: int callback)) = St_error"
  by (simp add: processAuth_def await_handleAuthSuccess_def handleAuthSuccess_def Let_def
        store_profile_def getRedirectUrl_def processAuth_catch_def initial_callback_def
        setStatus_def setState_def emit_def opt_get_def truthy_value_def or_else_def
        js_def decodeURIComponent_def URIError_def persists_session_def
        schedules_navigation_def)

section \<open>The email page: the countdown, the invariant of the timers, and the effects of a submission\<close>

lemma fold_run_handler:
  "fold (run_handler handler) ks s =
     s\<lparr>page_events := page_events s @ map Toast_error (List.map_filter handler ks)\<rparr>"
proof (induction ks arbitrary: s)
  case Nil
  show ?case by simp
next
  case (Cons k ks)
  show ?case
    by (cases "handler k")
       (simp_all add: Cons.IH, simp_all add: run_handler_def toast_error_def page_emit_def)
qed

lemma second_elapses_idle: "intervals s = [] \<Longrightarrow> second_elapses s = s"
  by (simp add: second_elapses_def)

lemma second_elapses_single: "intervals s = [h] \<Longrightarrow> second_elapses s = countdown_tick s"
  by (simp add: second_elapses_def)

lemma ticks_idle: "intervals s = [] \<Longrightarrow> (second_elapses ^^ k) s = s"
  by (induction k) (simp_all add: second_elapses_idle)

lemma tick_running:
  assumes "intervals s = [h]" "timerRef s = Some h" "countdown s = int (Suc (Suc n))"
  shows "intervals (second_elapses s) = [h] \<and> timerRef (second_elapses s) = Some h \<and>
         countdown (second_elapses s) = int (Suc n)"
  using assms by (simp add: second_elapses_single countdown_tick_def)

lemma tick_last:
  assumes "intervals s = [h]" "timerRef s = Some h" "countdown s = 1"
  shows "intervals (second_elapses s) = [] \<and> timerRef (second_elapses s) = None \<and>
         countdown (second_elapses s) = 0"
  using assms
  by (simp add: second_elapses_single countdown_tick_def clearTimer_def clearInterval_def)

lemma ticks_running:
  assumes "intervals s = [h]" "timerRef s = Some h" "countdown s = int n" "k < n"
  shows "intervals ((second_elapses ^^ k) s) = [h] \<and>
         timerRef ((second_elapses ^^ k) s) = Some h \<and>
         countdown ((second_elapses ^^ k) s) = int n - int k"
  using assms(4)
proof (induction k)
  case 0
  show ?case using assms by simp
next
  case (Suc k)
  then have ih: "intervals ((second_elapses ^^ k) s) = [h]"
      "timerRef ((second_elapses ^^ k) s) = Some h"
      "countdown ((second_elapses ^^ k) s) = int n - int k"
    by simp_all
  from Suc.prems obtain m where m: "n - k = Suc (Suc m)"
    by (metis Suc_diff_Suc Suc_lessD diff_Suc_Suc zero_less_diff gr0_implies_Suc)
  then have "countdown ((second_elapses ^^ k) s) = int (Suc (Suc m))"
    using ih(3) Suc.prems by linarith
  from tick_running[OF ih(1) ih(2) this] m Suc.prems show ?case
    by simp
qed

lemma ticks_finish:
  assumes "intervals s = [h]" "timerRef s = Some h" "countdown s = int n" "0 < n"
  shows "intervals ((second_elapses ^^ n) s) = [] \<and>
         timerRef ((second_elapses ^^ n) s) = None \<and>
         countdown ((second_elapses ^^ n) s) = 0"
proof -
  obtain k where k: "n = Suc k" using assms(4) by (cases n) auto
  have "k < n" using k by simp
  from ticks_running[OF assms(1-3) this] k
  have "intervals ((second_elapses ^^ k) s) = [h]"
       "timerRef ((second_elapses ^^ k) s) = Some h"
       "countdown ((second_elapses ^^ k) s) = 1" by simp_all
  from tick_last[OF this] show ?thesis by (simp add: k)
qed

lemma ticks_after:
  assumes "intervals s = [h]" "timerRef s = Some h" "countdown s = int n" "0 < n" "n \<le> k"
  shows "countdown ((second_elapses ^^ k) s) = 0 \<and> intervals ((second_elapses ^^ k) s) = []"
proof -
  obtain j where j: "k = j + n" using assms(5) by (metis le_add_diff_inverse2)
  have "(second_elapses ^^ k) s = (second_elapses ^^ j) ((second_elapses ^^ n) s)"
    by (simp add: j funpow_add)
  also have "\<dots> = (second_elapses ^^ n) s"
    using ticks_finish[OF assms(1-4)] by (simp add: ticks_idle)
  finally show ?thesis using ticks_finish[OF assms(1-4)] by simp
qed

lemma startCountdown_state:
  assumes "timer_inv s"
  shows "intervals (startCountdown s) = [next_handle s] \<and>
         timerRef (startCountdown s) = Some (next_handle s) \<and>
         countdown (startCountdown s) = 60 \<and>
         next_handle (startCountdown s) = Suc (next_handle s)"
  using assms
  by (cases "timerRef s")
     (simp_all add: startCountdown_def clearTimer_def clearInterval_def timer_inv_def Let_def)

lemma startCountdown_inv: "timer_inv s \<Longrightarrow> timer_inv (startCountdown s)"
  using startCountdown_state[of s] by (simp add: timer_inv_def)

lemma timer_inv_initial: "timer_inv initial_page"
  by (simp add: timer_inv_def initial_page_def)

lemma timer_inv_clearTimer: "timer_inv s \<Longrightarrow> timer_inv (clearTimer s)"
  by (simp add: timer_inv_def clearTimer_def clearInterval_def split: option.split)

lemma timer_inv_countdown_tick: "timer_inv s \<Longrightarrow> timer_inv (countdown_tick s)"
  using timer_inv_clearTimer[of s] by (simp add: countdown_tick_def timer_inv_def)

lemma timer_inv_second_elapses: "timer_inv s \<Longrightarrow> timer_inv (second_elapses s)"
  by (cases "timerRef s")
     (simp_all add: timer_inv_def second_elapses_idle second_elapses_single countdown_tick_def
        clearTimer_def clearInterval_def)

lemma timer_inv_handleCodeChange: "timer_inv s \<Longrightarrow> timer_inv (handleCodeChange v s)"
  by (simp add: timer_inv_def handleCodeChange_def)

lemma timer_inv_page_events[simp]:
  "timer_inv (s\<lparr>page_events := evs\<rparr>) = timer_inv s"
  "timer_inv (s\<lparr>isSendingCode := b\<rparr>) = timer_inv s"
  "timer_inv (s\<lparr>isSubmitting := b\<rparr>) = timer_inv s"
  "timer_inv (s\<lparr>page_user_profile := p\<rparr>) = timer_inv s"
  by (simp_all add: timer_inv_def)

lemma timer_inv_handleSendCode: "timer_inv s \<Longrightarrow> timer_inv (handleSendCode is_email sc s)"
  by (auto simp add: handleSendCode_def Let_def fold_run_handler toast_error_def
        toast_success_def page_emit_def startCountdown_inv split: option.split)

lemma timer_inv_onSubmit: "timer_inv s \<Longrightarrow> timer_inv (onSubmit lg pf email code s)"
  by (auto simp add: onSubmit_def Let_def fold_run_handler toast_error_def toast_success_def
        page_emit_def page_store_profile_def timer_inv_clearTimer
        split: option.split sum.split)

lemma handleSendCode_success:
  assumes email: "emailLoginSchema_email is_email (form_email s)"
    and idle: "\<not> isSendingCode s" "canRequest s"
    and ok: "truthy_value (sc_error sc) = None" "sc_data sc = Some d" "sr_code d = 201"
  shows "handleSendCode is_email sc s =
           (startCountdown
              (s\<lparr>isSendingCode := True,
                 page_events := page_events s @ [Call_sendEmailCode (form_email s)] @
                    map Toast_error (List.map_filter errorHandler (sc_invoked sc)) @
                    [Toast_success (Toast_code_sent (form_email s))]\<rparr>))
           \<lparr>isSendingCode := False\<rparr>"
proof -
  have "form_email s \<noteq> []"
    using email by (auto simp add: emailLoginSchema_email_def)
  then show ?thesis
    using assms
    by (simp add: handleSendCode_def canRequest_def Let_def fold_run_handler toast_success_def
          page_emit_def)
qed

lemma schema_rejects_malformed_code:
  assumes "list_ex (\<lambda>ch. \<not> is_digit ch) code \<or> length code \<noteq> 6"
  shows "\<not> emailLoginSchema_code code"
  using assms by (auto simp add: emailLoginSchema_code_def CODE_LENGTH_def list_all_iff list_ex_iff)

lemma onSubmit_failed:
  assumes "\<not> isSubmitting s" "login_failed lg"
  shows "onSubmit lg pf email code s =
     s\<lparr>page_events := page_events s @ Call_emailCodeLogin email code #
          map Toast_error
            (List.map_filter errorHandler (lg_invoked lg) @
             (case truthy_value (lg_error lg) of
                Some e \<Rightarrow> []
              | None \<Rightarrow>
                  [case lg_data lg of
                     None \<Rightarrow> Toast_login_failed_check_code
                   | Some d \<Rightarrow>
                       (case truthy_value (resp_message d) of
                          Some m \<Rightarrow> Toast_server_message m
                        | None \<Rightarrow> Toast_login_failed_check_code)]))\<rparr>"
  using assms
  by (auto simp add: onSubmit_def login_failed_def Let_def fold_run_handler toast_error_def
        page_emit_def split: option.splits)

lemma failure_notifications_toasts:
  "failure_notifications (e # map Toast_error ms) =
     (case e of Toast_error m \<Rightarrow> m # ms | _ \<Rightarrow> ms)"
proof -
  have "List.map_filter (\<lambda>e. case e of Toast_error m \<Rightarrow> Some m | _ \<Rightarrow> None) (map Toast_error ms) = ms"
    by (induction ms) (simp_all add: List.map_filter_simps)
  then show ?thesis
    by (cases e) (simp_all add: failure_notifications_def List.map_filter_simps)
qed

lemma page_events_store_profile:
  "\<exists>xs. page_events (page_store_profile pf s) = page_events s @ xs"
  by (simp add: page_store_profile_def toast_error_def page_emit_def
        split: sum.split option.split)

lemma page_events_clearTimer: "page_events (clearTimer s) = page_events s"
  by (simp add: clearTimer_def clearInterval_def split: option.split)

lemma onSubmit_issues_login_call:
  assumes "\<not> isSubmitting s"
  shows "take 1 (page_new_events s (onSubmit lg pf email code s)) =
           [Call_emailCodeLogin email code]"
proof (cases "login_failed lg")
  case True
  show ?thesis
    by (simp add: onSubmit_failed[OF assms True] page_new_events_def)
next
  case False
  then obtain d where ok: "truthy_value (lg_error lg) = None" "lg_data lg = Some d"
      "resp_code d = 201"
    by (auto simp add: login_failed_def split: option.splits)
  define s7 where "s7 = fold (run_handler onSubmit_profileHandler) (pf_invoked pf)
     (page_emit Call_getCurrentUser (page_emit (SaveAuthData (resp_data d))
        (toast_success Toast_login_ok
           (fold (run_handler errorHandler) (lg_invoked lg)
              (page_emit (Call_emailCodeLogin email code) (s\<lparr>isSubmitting := True\<rparr>))))))"
  have run: "onSubmit lg pf email code s =
     (page_emit (SetTimeout_router_push (js ''/'') 1000) (clearTimer (page_store_profile pf s7)))
       \<lparr>isSubmitting := False\<rparr>"
    using assms ok by (simp add: onSubmit_def Let_def s7_def)
  have e7: "\<exists>ys. page_events s7 = page_events s @ Call_emailCodeLogin email code # ys"
    by (simp add: s7_def fold_run_handler page_emit_def toast_success_def)
  obtain xs where "page_events (page_store_profile pf s7) = page_events s7 @ xs"
    using page_events_store_profile by blast
  with e7 have "\<exists>zs. page_events (onSubmit lg pf email code s) =
                  page_events s @ Call_emailCodeLogin email code # zs"
    by (auto simp add: run page_emit_def page_events_clearTimer)
  then show ?thesis by (auto simp add: page_new_events_def)
qed

lemma valid_form_issues_login_call:
  assumes "emailLoginSchema is_email (form_email s) (form_code s)" "\<not> isSubmitting s"
  shows "take 1 (page_new_events s (handleSubmit is_email lg pf s)) =
           [Call_emailCodeLogin (form_email s) (form_code s)]"
  using assms(1) onSubmit_issues_login_call[OF assms(2)] by (simp add: handleSubmit_def)

lemma timer_inv_handleSubmit: "timer_inv s \<Longrightarrow> timer_inv (handleSubmit is_email lg pf s)"
  by (simp add: handleSubmit_def timer_inv_onSubmit)

text \<open>
  What the invariant excludes: with two intervals armed, one second lowers the countdown
  by two.
\<close>

lemma two_armed_intervals_decrement_twice:
  assumes "intervals s = [h1, h2]" "3 \<le> countdown s"
  shows "countdown (second_elapses s) = countdown s - 2"
  using assms by (simp add: second_elapses_def countdown_tick_def)

text \<open>
  Two more failed attempts: a transport failure during which no callback is invoked shows
  nothing, and a reply with code 500 and no message gets the "check the code" text.
\<close>

lemma transport_failure_without_callback_shows_nothing:
  "failure_notifications
     (page_new_events example_page
        (onSubmit \<lparr>lg_invoked = [], lg_data = None, lg_error = Some (js ''Failed to fetch'')\<rparr>
           example_profile (js ''a@b.co'') (js ''123456'') example_page)) = []"
  by (simp add: onSubmit_def Let_def example_page_def initial_page_def example_profile_def
        toast_error_def page_emit_def truthy_value_def js_def
        page_new_events_def failure_notifications_def List.map_filter_simps)

lemma messageless_server_error_reply_gets_fixed_text:
  "failure_notifications
     (page_new_events example_page
        (onSubmit
           \<lparr>lg_invoked = [],
            lg_data = Some \<lparr>resp_code = 500, resp_message = None,
                            resp_data = \<lparr>token = [], refresh_token = None, expires_in = None,
                                         refresh_expires_in = None, success = None\<rparr>\<rparr>,
            lg_error = None\<rparr>
           example_profile (js ''a@b.co'') (js ''123456'') example_page))
     = [Toast_login_failed_check_code]"
  by (simp add: onSubmit_def Let_def example_page_def initial_page_def example_profile_def
        toast_error_def page_emit_def truthy_value_def js_def
        page_new_events_def failure_notifications_def List.map_filter_simps)

section \<open>Claims about the email page\<close>

text \<open>
  Claim C5. For every email the schema accepts, a dispatch that is issued (no dispatch in
  flight, no countdown running) and that the server confirms (no error, response code 201)
  leaves the countdown at 60, so that a further request is suppressed; with no other start,
  after \<open>k < 60\<close> seconds the countdown is \<open>60 - k\<close> and requests stay
  suppressed, and after exactly 60 seconds it is 0 and a request is possible again. The
  page's timers are in the state the page itself keeps them in (\<open>timer_inv\<close>).
\<close>

theorem cooldown_after_successful_dispatch:
  assumes inv: "timer_inv s"
    and email: "emailLoginSchema_email is_email (form_email s)"
    and idle: "\<not> isSendingCode s" "canRequest s"
    and ok: "truthy_value (sc_error sc) = None" "sc_data sc = Some d" "sr_code d = 201"
  shows "Call_sendEmailCode (form_email s) \<in> set (page_new_events s (handleSendCode is_email sc s)) \<and>
         countdown (handleSendCode is_email sc s) = 60 \<and>
         \<not> canRequest (handleSendCode is_email sc s) \<and>
         (\<forall>k<60. countdown ((second_elapses ^^ k) (handleSendCode is_email sc s)) = 60 - int k \<and>
                  \<not> canRequest ((second_elapses ^^ k) (handleSendCode is_email sc s))) \<and>
         countdown ((second_elapses ^^ 60) (handleSendCode is_email sc s)) = 0 \<and>
         canRequest ((second_elapses ^^ 60) (handleSendCode is_email sc s))"
proof -
  define t where "t = s\<lparr>isSendingCode := True,
                 page_events := page_events s @ [Call_sendEmailCode (form_email s)] @
                    map Toast_error (List.map_filter errorHandler (sc_invoked sc)) @
                    [Toast_success (Toast_code_sent (form_email s))]\<rparr>"
  define s' where "s' = handleSendCode is_email sc s"
  have s': "s' = (startCountdown t)\<lparr>isSendingCode := False\<rparr>"
    unfolding s'_def t_def by (rule handleSendCode_success[OF email idle ok])
  have "timer_inv t" using inv by (simp add: t_def timer_inv_def)
  from startCountdown_state[OF this]
  have st: "intervals s' = [next_handle t]" "timerRef s' = Some (next_handle t)"
      "countdown s' = int 60"
    by (simp_all add: s')
  have ev: "Call_sendEmailCode (form_email s) \<in> set (page_new_events s s')"
    by (simp add: s' page_new_events_def startCountdown_def Let_def clearTimer_def
          clearInterval_def t_def split: option.split)
  have run: "countdown ((second_elapses ^^ k) s') = 60 - int k" if "k < 60" for k
    using ticks_running[OF st that] by simp
  have fin: "countdown ((second_elapses ^^ 60) s') = 0"
    using ticks_finish[OF st] by simp
  show ?thesis
    unfolding s'_def[symmetric]
    using ev st(3) run fin by (auto simp add: canRequest_def)
qed

theorem cooldown_after_successful_dispatch_witness:
  "timer_inv example_page \<and>
   emailLoginSchema_email example_is_email (form_email example_page) \<and>
   \<not> isSendingCode example_page \<and> canRequest example_page \<and>
   truthy_value (sc_error example_dispatch) = None \<and>
   sc_data example_dispatch = Some \<lparr>sr_code = 201, sr_message = None\<rparr> \<and>
   sr_code \<lparr>sr_code = 201, sr_message = None\<rparr> = 201 \<and>
   countdown (handleSendCode example_is_email example_dispatch example_page) = 60 \<and>
   \<not> canRequest (handleSendCode example_is_email example_dispatch example_page) \<and>
   countdown ((second_elapses ^^ 59)
      (handleSendCode example_is_email example_dispatch example_page)) = 60 - int 59 \<and>
   canRequest ((second_elapses ^^ 60)
      (handleSendCode example_is_email example_dispatch example_page))"
proof -
  have h1: "timer_inv example_page"
    by (simp add: example_page_def initial_page_def timer_inv_def)
  have h2: "emailLoginSchema_email example_is_email (form_email example_page)"
    by (simp add: example_page_def initial_page_def emailLoginSchema_email_def
          example_is_email_def js_def)
  have h3: "\<not> isSendingCode example_page"
    by (simp add: example_page_def initial_page_def)
  have h4: "canRequest example_page"
    by (simp add: example_page_def initial_page_def canRequest_def)
  have h5: "truthy_value (sc_error example_dispatch) = None"
    by (simp add: example_dispatch_def truthy_value_def)
  have h6: "sc_data example_dispatch = Some \<lparr>sr_code = 201, sr_message = None\<rparr>"
    by (simp add: example_dispatch_def)
  have h7: "sr_code \<lparr>sr_code = 201, sr_message = None\<rparr> = 201"
    by simp
  have k: "(59::nat) < 60" by simp
  show ?thesis
    using h1 h2 h3 h4 h5 h6 h7 k cooldown_after_successful_dispatch[OF h1 h2 h3 h4 h5 h6 h7]
    by blast
qed

text \<open>
  Claim C6. Two calls of \<open>startCountdown\<close> in a row leave exactly one interval armed,
  the one of the second call: the first call's interval is cleared, the countdown is 60
  again, each second lowers it by exactly one while that single interval stays armed, and
  from the 60th second on the countdown is 0 and no interval is armed.
\<close>

theorem restart_leaves_one_countdown:
  assumes "timer_inv s"
  shows "intervals (startCountdown s) = [next_handle s] \<and>
         timerRef (startCountdown s) = Some (next_handle s) \<and>
         intervals (startCountdown (startCountdown s)) = [Suc (next_handle s)] \<and>
         timerRef (startCountdown (startCountdown s)) = Some (Suc (next_handle s)) \<and>
         next_handle s \<notin> set (intervals (startCountdown (startCountdown s))) \<and>
         countdown (startCountdown (startCountdown s)) = 60 \<and>
         (\<forall>k<60. countdown ((second_elapses ^^ k) (startCountdown (startCountdown s))) = 60 - int k \<and>
                  intervals ((second_elapses ^^ k) (startCountdown (startCountdown s))) =
                    [Suc (next_handle s)]) \<and>
         (\<forall>k\<ge>60. countdown ((second_elapses ^^ k) (startCountdown (startCountdown s))) = 0 \<and>
                  intervals ((second_elapses ^^ k) (startCountdown (startCountdown s))) = [])"
proof -
  define s1 where "s1 = startCountdown s"
  define s2 where "s2 = startCountdown s1"
  have one: "intervals s1 = [next_handle s]" "timerRef s1 = Some (next_handle s)"
      "next_handle s1 = Suc (next_handle s)"
    using startCountdown_state[OF assms] by (simp_all add: s1_def)
  have "timer_inv s1" unfolding s1_def by (rule startCountdown_inv[OF assms])
  from startCountdown_state[OF this]
  have two: "intervals s2 = [Suc (next_handle s)]" "timerRef s2 = Some (Suc (next_handle s))"
      "countdown s2 = int 60"
    by (simp_all add: s2_def one)
  have run: "countdown ((second_elapses ^^ k) s2) = 60 - int k \<and>
             intervals ((second_elapses ^^ k) s2) = [Suc (next_handle s)]" if "k < 60" for k
    using ticks_running[OF two that] by simp
  have fin: "countdown ((second_elapses ^^ k) s2) = 0 \<and> intervals ((second_elapses ^^ k) s2) = []"
    if "60 \<le> k" for k
    using ticks_after[OF two _ that] by simp
  show ?thesis
    unfolding s1_def[symmetric] s2_def[symmetric]
    using one two run fin by simp
qed

theorem restart_leaves_one_countdown_witness:
  "timer_inv (initial_page :: int email_page) \<and>
   intervals (startCountdown (startCountdown (initial_page :: int email_page))) =
     [Suc (next_handle (initial_page :: int email_page))] \<and>
   next_handle (initial_page :: int email_page) \<notin>
     set (intervals (startCountdown (startCountdown (initial_page :: int email_page)))) \<and>
   countdown (startCountdown (startCountdown (initial_page :: int email_page))) = 60 \<and>
   countdown ((second_elapses ^^ 59)
      (startCountdown (startCountdown (initial_page :: int email_page)))) = 60 - int 59 \<and>
   countdown ((second_elapses ^^ 60)
      (startCountdown (startCountdown (initial_page :: int email_page)))) = 0 \<and>
   intervals ((second_elapses ^^ 60)
      (startCountdown (startCountdown (initial_page :: int email_page)))) = []"
proof -
  have h: "timer_inv (initial_page :: int email_page)"
    by (simp add: initial_page_def timer_inv_def)
  have k: "(59::nat) < 60" "(60::nat) \<ge> 60" by simp_all
  show ?thesis
    using h k restart_leaves_one_countdown[OF h] by blast
qed

text \<open>
  Claim C7. When the code field holds a character that is not a digit or is not exactly 6
  characters long, or the email field fails the schema, \<open>handleSubmit\<close> does nothing:
  the page is unchanged and no call of \<open>emailCodeLogin\<close> is issued.
\<close>

theorem invalid_form_blocks_submission:
  assumes "list_ex (\<lambda>ch. \<not> is_digit ch) (form_code s) \<or> length (form_code s) \<noteq> 6 \<or>
           \<not> emailLoginSchema_email is_email (form_email s)"
  shows "handleSubmit is_email lg pf s = s \<and>
         \<not> list_ex is_login_call (page_new_events s (handleSubmit is_email lg pf s))"
proof -
  have "\<not> emailLoginSchema is_email (form_email s) (form_code s)"
    using assms schema_rejects_malformed_code[of "form_code s"]
    by (auto simp add: emailLoginSchema_def)
  then show ?thesis by (simp add: handleSubmit_def page_new_events_def)
qed

theorem invalid_form_blocks_submission_witness:
  "length (form_code example_page) \<noteq> 6 \<and>
   handleSubmit example_is_email example_forbidden example_profile example_page = example_page \<and>
   \<not> list_ex is_login_call
      (page_new_events example_page
         (handleSubmit example_is_email example_forbidden example_profile example_page))"
proof -
  have h: "length (form_code example_page) \<noteq> 6"
    by (simp add: example_page_def initial_page_def js_def)
  then have "list_ex (\<lambda>ch. \<not> is_digit ch) (form_code example_page) \<or>
             length (form_code example_page) \<noteq> 6 \<or>
             \<not> emailLoginSchema_email example_is_email (form_email example_page)"
    by blast
  from invalid_form_blocks_submission[OF this] h show ?thesis by blast
qed

text \<open>
  Claim C8, as amended. A login attempt that fails (the result carries an error, or the
  response is missing or its code is not 201) persists no session and schedules no
  navigation; afterwards \<open>isSubmitting\<close> is false and the form fields are as they
  were, so the form can be submitted again. When the result carries no error,
  \<open>onSubmit\<close> shows one notification: the response's message if it has a non-empty
  one, the fixed "login failed, check the code" text otherwise. When the result carries an
  error, \<open>onSubmit\<close> shows none of its own. The only other notifications are the fixed
  texts of the \<open>errorHandler\<close> callbacks the request layer invoked during the call:
  request failed (\<open>onError\<close>), code wrong or expired (\<open>forbidden\<close>), server error,
  network failed, unknown error (\<open>default\<close>); the object has no \<open>unauthorized\<close>
  callback.
\<close>

theorem failed_login_attempt:
  assumes "\<not> isSubmitting s"
    and "login_failed lg"
  shows "\<not> list_ex persists_session (page_new_events s (onSubmit lg pf email code s)) \<and>
         \<not> list_ex schedules_navigation (page_new_events s (onSubmit lg pf email code s)) \<and>
         failure_notifications (page_new_events s (onSubmit lg pf email code s)) =
           List.map_filter errorHandler (lg_invoked lg) @
           (case truthy_value (lg_error lg) of
              Some e \<Rightarrow> []
            | None \<Rightarrow>
                [case lg_data lg of
                   None \<Rightarrow> Toast_login_failed_check_code
                 | Some d \<Rightarrow>
                     (case truthy_value (resp_message d) of
                        Some m \<Rightarrow> Toast_server_message m
                      | None \<Rightarrow> Toast_login_failed_check_code)]) \<and>
         map errorHandler [OnError, Forbidden, ServerError, NetworkError, Default, Unauthorized] =
           [Some Toast_request_failed, Some Toast_code_wrong_or_expired, Some Toast_server_error,
            Some Toast_network_failed, Some Toast_unknown_error, None] \<and>
         isSubmitting (onSubmit lg pf email code s) = False \<and>
         form_email (onSubmit lg pf email code s) = form_email s \<and>
         form_code (onSubmit lg pf email code s) = form_code s"
proof -
  define own where "own = (case truthy_value (lg_error lg) of
              Some e \<Rightarrow> []
            | None \<Rightarrow>
                [case lg_data lg of
                   None \<Rightarrow> Toast_login_failed_check_code
                 | Some d \<Rightarrow>
                     (case truthy_value (resp_message d) of
                        Some m \<Rightarrow> Toast_server_message m
                      | None \<Rightarrow> Toast_login_failed_check_code)])"
  define ms where "ms = List.map_filter errorHandler (lg_invoked lg) @ own"
  have run: "onSubmit lg pf email code s =
     s\<lparr>page_events := page_events s @ Call_emailCodeLogin email code # map Toast_error ms\<rparr>"
    unfolding ms_def own_def by (rule onSubmit_failed[OF assms(1,2)])
  have new: "page_new_events s (onSubmit lg pf email code s) =
               Call_emailCodeLogin email code # map Toast_error ms"
    by (simp add: run page_new_events_def)
  have notif: "failure_notifications (page_new_events s (onSubmit lg pf email code s)) = ms"
    by (simp add: new failure_notifications_toasts)
  have nosave: "\<not> list_ex persists_session (Call_emailCodeLogin email code # map Toast_error ms)"
    by (simp add: list_ex_iff persists_session_def)
  have nonav: "\<not> list_ex schedules_navigation (Call_emailCodeLogin email code # map Toast_error ms)"
    by (simp add: list_ex_iff schedules_navigation_def)
  have c1: "\<not> list_ex persists_session (page_new_events s (onSubmit lg pf email code s))"
    unfolding new by (rule nosave)
  have c2: "\<not> list_ex schedules_navigation (page_new_events s (onSubmit lg pf email code s))"
    unfolding new by (rule nonav)
  have c3: "failure_notifications (page_new_events s (onSubmit lg pf email code s)) =
              List.map_filter errorHandler (lg_invoked lg) @ own"
    unfolding notif by (rule ms_def)
  have c4: "map errorHandler [OnError, Forbidden, ServerError, NetworkError, Default, Unauthorized] =
           [Some Toast_request_failed, Some Toast_code_wrong_or_expired, Some Toast_server_error,
            Some Toast_network_failed, Some Toast_unknown_error, None]"
    by (simp add: errorHandler_def)
  have st: "isSubmitting (onSubmit lg pf email code s) = False"
      "form_email (onSubmit lg pf email code s) = form_email s"
      "form_code (onSubmit lg pf email code s) = form_code s"
    using assms(1) by (simp_all add: run)
  show ?thesis
    using c1 c2 c3[unfolded own_def] c4 st by blast
qed

theorem failed_login_attempt_witness:
  "\<not> isSubmitting example_page \<and> login_failed example_forbidden \<and>
   \<not> list_ex persists_session
      (page_new_events example_page
         (onSubmit example_forbidden example_profile (js ''a@b.co'') (js ''123456'') example_page)) \<and>
   \<not> list_ex schedules_navigation
      (page_new_events example_page
         (onSubmit example_forbidden example_profile (js ''a@b.co'') (js ''123456'') example_page)) \<and>
   failure_notifications
      (page_new_events example_page
         (onSubmit example_forbidden example_profile (js ''a@b.co'') (js ''123456'') example_page))
     = [Toast_code_wrong_or_expired] \<and>
   isSubmitting
     (onSubmit example_forbidden example_profile (js ''a@b.co'') (js ''123456'') example_page)
     = False"
proof -
  have h1: "\<not> isSubmitting example_page"
    by (simp add: example_page_def initial_page_def)
  have h2: "login_failed example_forbidden"
    by (simp add: example_forbidden_def login_failed_def truthy_value_def js_def)
  have e: "List.map_filter errorHandler (lg_invoked example_forbidden) @
           (case truthy_value (lg_error example_forbidden) of
              Some e \<Rightarrow> []
            | None \<Rightarrow>
                [case lg_data example_forbidden of
                   None \<Rightarrow> Toast_login_failed_check_code
                 | Some d \<Rightarrow>
                     (case truthy_value (resp_message d) of
                        Some m \<Rightarrow> Toast_server_message m
                      | None \<Rightarrow> Toast_login_failed_check_code)]) = [Toast_code_wrong_or_expired]"
    by (simp add: example_forbidden_def truthy_value_def js_def errorHandler_def
          List.map_filter_simps)
  show ?thesis
    using h1 h2 e
      failed_login_attempt[OF h1 h2, where pf = example_profile and email = "js ''a@b.co''"
        and code = "js ''123456''"]
    by simp
qed

text \<open>
  Claim C8 as stated fails: when the result carries an error, a server message that is
  present is not shown; the notification is the fixed text of the callback.
\<close>

theorem server_message_dropped_when_error_is_set:
  "failure_notifications
     (page_new_events example_page
        (onSubmit
           \<lparr>lg_invoked = [Forbidden],
            lg_data = Some \<lparr>resp_code = 403, resp_message = Some (js ''code expired''),
                            resp_data = \<lparr>token = [], refresh_token = None, expires_in = None,
                                         refresh_expires_in = None, success = None\<rparr>\<rparr>,
            lg_error = Some (js ''Forbidden'')\<rparr>
           example_profile (js ''a@b.co'') (js ''123456'') example_page))
     = [Toast_code_wrong_or_expired] \<and>
   Toast_server_message (js ''code expired'') \<noteq> Toast_code_wrong_or_expired"
  by (simp add: onSubmit_def Let_def example_page_def initial_page_def example_profile_def
        run_handler_def errorHandler_def toast_error_def page_emit_def truthy_value_def js_def
        page_new_events_def failure_notifications_def List.map_filter_simps)

text \<open>
  Claim C9. Whatever is typed into the code field, the value \<open>handleCodeChange\<close>
  stores consists of ASCII digits only and has at most 6 of them: it is the first 6 digits
  of the input.
\<close>

theorem code_field_digits_only:
  "list_all is_digit (form_code (handleCodeChange v s)) \<and>
   length (form_code (handleCodeChange v s)) \<le> 6 \<and>
   form_code (handleCodeChange v s) = take 6 (filter is_digit v)"
proof -
  have "set (take 6 (filter is_digit v)) \<subseteq> set (filter is_digit v)"
    by (rule set_take_subset)
  then have "list_all is_digit (take 6 (filter is_digit v))"
    by (auto simp add: list_all_iff)
  then show ?thesis by (simp add: handleCodeChange_def CODE_LENGTH_def)
qed

theorem code_field_digits_only_witness:
  "form_code (handleCodeChange (js ''12a3-4567890'') example_page) = js ''123456'' \<and>
   list_all is_digit (form_code (handleCodeChange (js ''12a3-4567890'') example_page)) \<and>
   length (form_code (handleCodeChange (js ''12a3-4567890'') example_page)) \<le> 6"
proof -
  have "take 6 (filter is_digit (js ''12a3-4567890'')) = js ''123456''"
    by (simp add: js_def is_digit_def)
  with code_field_digits_only[of "js ''12a3-4567890''" example_page] show ?thesis
    by (simp add: js_def is_digit_def)
qed

end
